theory Spec2Isabelle
  imports Main "HOL-Library.AList" "HOL-Library.Word"
begin

section \<open>JavaScript strings and values\<close>

text \<open>
  A JavaScript string is a sequence of UTF-16 code units, and \<open>length\<close>,
  \<open>substring\<close> and \<open>trim\<close> count and inspect code units. A feature's description
  is free text and is modelled as such: a list of 16-bit words (\<open>utf16\<close>). The other
  strings the service handles (feature ids, paths, branch names, command output, the texts
  of events and transcripts) are lists of \<open>char\<close>, each character standing for the
  code unit of its value, below 256; \<open>js\<close> is this reading.

  \<open>js_whitespace\<close> is the set that \<open>String.prototype.trim\<close> strips: the white
  space code points (tab, vertical tab, form feed, space, no-break space, the byte order
  mark and the space separators of Unicode) and the line terminators (line feed, carriage
  return, line and paragraph separator); all of them are single code units. The helpers
  follow the methods of the \<open>String\<close> prototype that the service calls, with the
  receiver as first argument.
\<close>

type_synonym utf16 = "16 word list"

definition js :: "string \<Rightarrow> utf16" where
  "js s = map of_char s"

definition newline :: char where
  "newline = CHR 0x0A"

definition lineFeed :: "16 word" where
  "lineFeed = 0x0A"

definition js_whitespace :: "16 word \<Rightarrow> bool" where
  "js_whitespace u \<longleftrightarrow>
     u = 0x0009 \<or> u = 0x000A \<or> u = 0x000B \<or> u = 0x000C \<or> u = 0x000D \<or> u = 0x0020 \<or>
     u = 0x00A0 \<or> u = 0x1680 \<or> (0x2000 \<le> u \<and> u \<le> 0x200A) \<or> u = 0x2028 \<or>
     u = 0x2029 \<or> u = 0x202F \<or> u = 0x205F \<or> u = 0x3000 \<or> u = 0xFEFF"

definition trim_with :: "('a \<Rightarrow> bool) \<Rightarrow> 'a list \<Rightarrow> 'a list" where
  "trim_with ws s = rev (dropWhile ws (rev (dropWhile ws s)))"

text \<open>\<open>trim\<close> on a description, and on a string of characters.\<close>

definition trim :: "utf16 \<Rightarrow> utf16" where
  "trim s = trim_with js_whitespace s"

definition trimText :: "string \<Rightarrow> string" where
  "trimText s = trim_with (\<lambda>c. js_whitespace (of_char c)) s"

text \<open>\<open>s.split("\n")[0]\<close>: the code units before the first line feed.\<close>

definition first_line :: "utf16 \<Rightarrow> utf16" where
  "first_line s = takeWhile (\<lambda>u. u \<noteq> lineFeed) s"

definition startsWith :: "string \<Rightarrow> string \<Rightarrow> bool" where
  "startsWith s p \<longleftrightarrow> take (length p) s = p"

definition endsWith :: "string \<Rightarrow> string \<Rightarrow> bool" where
  "endsWith s p \<longleftrightarrow> length p \<le> length s \<and> drop (length s - length p) s = p"

fun js_includes :: "string \<Rightarrow> string \<Rightarrow> bool" where
  "js_includes [] p = (p = [])"
| "js_includes (c # cs) p = (startsWith (c # cs) p \<or> js_includes cs p)"

text \<open>\<open>s.replace(pat, rep)\<close> with a string pattern: the first occurrence only.\<close>

fun replace_first :: "string \<Rightarrow> string \<Rightarrow> string \<Rightarrow> string" where
  "replace_first [] pat rep = (if pat = [] then rep else [])"
| "replace_first (c # cs) pat rep =
     (if startsWith (c # cs) pat then rep @ drop (length pat) (c # cs)
      else c # replace_first cs pat rep)"

text \<open>\<open>s.split("\n")\<close>: the pieces between line feeds; never the empty list.\<close>

fun split_lines :: "string \<Rightarrow> string list" where
  "split_lines [] = [[]]"
| "split_lines (c # cs) =
     (if c = newline then [] # split_lines cs
      else (case split_lines cs of
              [] \<Rightarrow> [[c]]
            | l # ls \<Rightarrow> (c # l) # ls))"

text \<open>
  A value that is a string, \<open>null\<close> or \<open>undefined\<close> is a \<open>string option\<close>; in a
  condition the empty string counts as false, as \<open>null\<close> does.
\<close>

definition truthy :: "string option \<Rightarrow> bool" where
  "truthy v \<longleftrightarrow> (case v of None \<Rightarrow> False | Some s \<Rightarrow> s \<noteq> [])"

definition digit_char :: "nat \<Rightarrow> char" where
  "digit_char d = char_of (48 + d)"

function string_of_nat :: "nat \<Rightarrow> string" where
  "string_of_nat n =
     (if n < 10 then [digit_char n] else string_of_nat (n div 10) @ [digit_char (n mod 10)])"
  by pat_completeness auto
termination
  by (relation "measure id") auto

declare string_of_nat.simps [simp del]

text \<open>Thrown values: an error object with its \<open>name\<close> and \<open>message\<close>.\<close>

datatype js_error = JsError (errName: string) (errMessage: string)

definition newError :: "string \<Rightarrow> js_error" where
  "newError msg = JsError ''Error'' msg"

section \<open>Commit titles\<close>

text \<open>
  \<open>extractTitleFromDescription\<close>: a blank description gives a fixed title; otherwise the
  trimmed first line, cut to 57 characters plus an ellipsis when it is longer than 60.
\<close>

definition extractTitleFromDescription :: "utf16 \<Rightarrow> utf16" where
  "extractTitleFromDescription description =
     (if description = [] \<or> trim description = [] then js ''Untitled Feature''
      else let firstLine = trim (first_line description)
           in if length firstLine \<le> 60 then firstLine
              else take 57 firstLine @ js ''...'')"

section \<open>The service's collaborators\<close>

text \<open>
  The service runs external commands through \<open>execAsync\<close>, touches the project tree
  through \<open>fs\<close>, and builds paths with Node's \<open>path\<close> module. None of these is code of
  the service: they are the fields of a record \<open>S\<close> that every operation takes, acting on
  an external state of type \<open>'g\<close> (the project tree and its git repository). A command
  is one of the templates the service issues, with the strings it splices into the text;
  \<open>shellText\<close> below gives the text of those of \<open>setupWorktree\<close>.
  \<open>classifyError\<close> is imported from \<open>lib/error-handler\<close>, which is not among the
  sources; it is a field too, and so is the environment switch \<open>AUTOMAKER_MOCK_AGENT\<close>.
\<close>

datatype command =
    GitWorktreeList
  | GitBranch string
  | GitWorktreeAdd string string
  | GitStatusPorcelain
  | GitAddAll
  | GitCommit utf16
  | GitRevParseHead
  | Shell string

datatype exec_result = ExecOk string string | ExecFail js_error

record ErrorInfo =
  isAbort :: bool
  isAuth :: bool
  message :: string

record 'g deps =
  classifyError :: "js_error \<Rightarrow> ErrorInfo"
  mockAgent :: bool
  pathJoin :: "string \<Rightarrow> string \<Rightarrow> string"
  pathResolve :: "string \<Rightarrow> string"
  pathResolveFrom :: "string \<Rightarrow> string \<Rightarrow> string"
  pathIsAbsolute :: "string \<Rightarrow> bool"
  shExec :: "command \<Rightarrow> string \<Rightarrow> 'g \<Rightarrow> exec_result \<times> 'g"
  fsAccess :: "string \<Rightarrow> 'g \<Rightarrow> bool"
  fsMkdir :: "string \<Rightarrow> 'g \<Rightarrow> js_error option \<times> 'g"
  fsWriteFile :: "string \<Rightarrow> string \<Rightarrow> 'g \<Rightarrow> js_error option \<times> 'g"

section \<open>The state of the service and of its stores\<close>

text \<open>
  \<open>RunningFeature\<close> is the interface of that name; the abort controller is a reference,
  here an index into the set \<open>aborted\<close> of controllers whose signal has fired.
\<close>

record RunningFeature =
  rfFeatureId :: string
  rfProjectPath :: string
  rfWorktreePath :: "string option"
  rfBranchName :: "string option"
  rfAbortController :: nat
  rfIsAutoMode :: bool
  rfStartTime :: nat

text \<open>
  The fields of \<open>feature.json\<close> that the operations below read or write. The others
  (\<open>spec\<close>, \<open>model\<close>, \<open>imagePaths\<close>) only feed the prompt sent to the agent.
\<close>

record Feature =
  fId :: string
  fDescription :: utf16
  fStatus :: string
  fBranchName :: "string option"
  fUpdatedAt :: "nat option"
  fJustFinishedAt :: "nat option"

text \<open>
  The payloads given to \<open>emitAutoModeEvent\<close>, by event type, each with its feature id
  first; a start event carries the title of its feature payload. The \<open>projectPath\<close>
  some of them carry is left out.
\<close>

datatype event =
    FeatureStart string string
  | FeatureComplete string bool string
  | Progress string string
  | ToolUsed string string "string option"
  | ErrorEvent string string string

text \<open>
  What a run does to the outside, in order: the events it emits, the status it writes into
  a feature's file, and the commands it executes with their working directory.
\<close>

datatype effect =
    Emit event
  | WriteStatus string string string
  | Exec command string

text \<open>
  \<open>runningFeatures\<close> is the \<open>Map\<close> of the service, in insertion order. The feature
  store and the context store hold \<open>feature.json\<close> and \<open>agent-output.md\<close> of each
  feature directory, keyed by project path and feature id; reading fails exactly when the
  file is absent, and writing succeeds. \<open>timers\<close> are the debounce timers that a run has
  left armed, each with the store key and the text it will write when it fires.
\<close>

record 'g world =
  runningFeatures :: "(string \<times> RunningFeature) list"
  nextController :: nat
  aborted :: "nat set"
  clock :: nat
  featureFiles :: "string \<times> string \<rightharpoonup> Feature"
  contextFiles :: "string \<times> string \<rightharpoonup> string"
  timers :: "((string \<times> string) \<times> string) list"
  trace :: "effect list"
  external :: 'g

definition emitAutoModeEvent :: "'g world \<Rightarrow> event \<Rightarrow> 'g world" where
  "emitAutoModeEvent w e = w\<lparr>trace := trace w @ [Emit e]\<rparr>"

definition execAsync :: "'g deps \<Rightarrow> 'g world \<Rightarrow> command \<Rightarrow> string \<Rightarrow> exec_result \<times> 'g world" where
  "execAsync S w cmd cwd =
     (case shExec S cmd cwd (external w) of
        (r, g) \<Rightarrow> (r, w\<lparr>external := g, trace := trace w @ [Exec cmd cwd]\<rparr>))"

definition loadFeature :: "'g world \<Rightarrow> string \<Rightarrow> string \<Rightarrow> Feature option" where
  "loadFeature w projectPath featureId = featureFiles w (projectPath, featureId)"

definition contextExists :: "'g world \<Rightarrow> string \<Rightarrow> string \<Rightarrow> bool" where
  "contextExists w projectPath featureId \<longleftrightarrow> contextFiles w (projectPath, featureId) \<noteq> None"

definition updateFeatureStatus :: "'g world \<Rightarrow> string \<Rightarrow> string \<Rightarrow> string \<Rightarrow> 'g world" where
  "updateFeatureStatus w projectPath featureId status =
     (case featureFiles w (projectPath, featureId) of
        None \<Rightarrow> w
      | Some feature \<Rightarrow>
          w\<lparr>featureFiles := (featureFiles w)((projectPath, featureId) \<mapsto>
               feature\<lparr>fStatus := status,
                       fUpdatedAt := Some (clock w),
                       fJustFinishedAt :=
                         (if status = ''waiting_approval'' then Some (clock w) else None)\<rparr>),
            trace := trace w @ [WriteStatus projectPath featureId status]\<rparr>)"

section \<open>Verification\<close>

definition verificationChecks :: "(string \<times> string) list" where
  "verificationChecks =
     [(''npm run lint'', ''Lint''),
      (''npm run typecheck'', ''Type check''),
      (''npm test'', ''Tests''),
      (''npm run build'', ''Build'')]"

record check_result =
  checkName :: string
  checkPassed :: bool
  checkOutput :: string

text \<open>
  The loop of \<open>verifyFeature\<close> over the checks that remain: the result is \<open>allPassed\<close>,
  the \<open>results\<close> array and the world. A failing command ends the loop (\<open>break\<close>).
\<close>

fun runChecks ::
  "'g deps \<Rightarrow> string \<Rightarrow> (string \<times> string) list \<Rightarrow> 'g world \<Rightarrow> check_result list
     \<Rightarrow> bool \<times> check_result list \<times> 'g world" where
  "runChecks S workDir [] w results = (True, results, w)"
| "runChecks S workDir ((cmd, name) # rest) w results =
     (case execAsync S w (Shell cmd) workDir of
        (ExecOk out err, w') \<Rightarrow>
          runChecks S workDir rest w'
            (results @ [\<lparr>checkName = name, checkPassed = True, checkOutput = (if out \<noteq> [] then out else err)\<rparr>])
      | (ExecFail e, w') \<Rightarrow>
          (False, results @ [\<lparr>checkName = name, checkPassed = False, checkOutput = errMessage e\<rparr>], w'))"

definition verifyMessage :: "bool \<Rightarrow> check_result list \<Rightarrow> string" where
  "verifyMessage allPassed results =
     (if allPassed then ''All verification checks passed''
      else ''Verification failed: '' @
        (case find (\<lambda>r. \<not> checkPassed r) results of
           None \<Rightarrow> ''Unknown''
         | Some r \<Rightarrow> if checkName r = [] then ''Unknown'' else checkName r))"

definition verifyWorkDir :: "'g deps \<Rightarrow> 'g world \<Rightarrow> string \<Rightarrow> string \<Rightarrow> string" where
  "verifyWorkDir S w projectPath featureId =
     (let worktreePath = pathJoin S (pathJoin S projectPath ''.worktrees'') featureId
      in if fsAccess S worktreePath (external w) then worktreePath else projectPath)"

definition verifyFeature :: "'g deps \<Rightarrow> 'g world \<Rightarrow> string \<Rightarrow> string \<Rightarrow> bool \<times> 'g world" where
  "verifyFeature S w projectPath featureId =
     (case runChecks S (verifyWorkDir S w projectPath featureId) verificationChecks w [] of
        (allPassed, results, w1) \<Rightarrow>
          (allPassed,
           emitAutoModeEvent w1
             (FeatureComplete featureId allPassed (verifyMessage allPassed results))))"

section \<open>Commit\<close>

definition commitMessage :: "Feature option \<Rightarrow> string \<Rightarrow> utf16" where
  "commitMessage feature featureId =
     (case feature of
        Some ft \<Rightarrow>
          js ''feat: '' @ extractTitleFromDescription (fDescription ft) @ [lineFeed, lineFeed] @
          js ''Implemented by Automaker auto-mode''
      | None \<Rightarrow> js (''feat: Feature '' @ featureId))"

text \<open>
  The body of the \<open>try\<close> block of \<open>commitFeature\<close>: \<open>Inl\<close> is an exception thrown
  inside it, by one of the four git commands.
\<close>

definition commitFeature_try ::
  "'g deps \<Rightarrow> 'g world \<Rightarrow> string \<Rightarrow> string \<Rightarrow> string \<Rightarrow> (js_error + string option) \<times> 'g world" where
  "commitFeature_try S w projectPath featureId workDir =
     (case execAsync S w GitStatusPorcelain workDir of
        (ExecFail e, w1) \<Rightarrow> (Inl e, w1)
      | (ExecOk status err1, w1) \<Rightarrow>
          if trimText status = [] then (Inr None, w1)
          else
            let msg = commitMessage (loadFeature w1 projectPath featureId) featureId
            in case execAsync S w1 GitAddAll workDir of
                 (ExecFail e, w2) \<Rightarrow> (Inl e, w2)
               | (ExecOk out2 err2, w2) \<Rightarrow>
                   (case execAsync S w2 (GitCommit msg) workDir of
                      (ExecFail e, w3) \<Rightarrow> (Inl e, w3)
                    | (ExecOk out3 err3, w3) \<Rightarrow>
                        (case execAsync S w3 GitRevParseHead workDir of
                           (ExecFail e, w4) \<Rightarrow> (Inl e, w4)
                         | (ExecOk hash err4, w4) \<Rightarrow>
                             (Inr (Some (trimText hash)),
                              emitAutoModeEvent w4
                                (FeatureComplete featureId True
                                   (''Changes committed: '' @ take 8 (trimText hash)))))))"

text \<open>
  \<open>commitFeature\<close>: the working directory is the provided worktree when it is given and
  accessible, the legacy location when none is given and that is accessible, else the
  project path. The \<open>catch\<close> clause logs the exception and returns \<open>null\<close>. The result
  is how the promise settles: \<open>Inl\<close> a rejection, \<open>Inr\<close> the value.
\<close>

definition commitWorkDir :: "'g deps \<Rightarrow> 'g world \<Rightarrow> string \<Rightarrow> string \<Rightarrow> string option \<Rightarrow> string" where
  "commitWorkDir S w projectPath featureId providedWorktreePath =
     (let legacyWorktreePath = pathJoin S (pathJoin S projectPath ''.worktrees'') featureId;
          legacy = (if fsAccess S legacyWorktreePath (external w)
                    then legacyWorktreePath else projectPath)
      in case providedWorktreePath of
           None \<Rightarrow> legacy
         | Some provided \<Rightarrow>
             if provided = [] then legacy
             else if fsAccess S provided (external w) then provided else projectPath)"

definition commitFeature ::
  "'g deps \<Rightarrow> 'g world \<Rightarrow> string \<Rightarrow> string \<Rightarrow> string option
     \<Rightarrow> (js_error + string option) \<times> 'g world" where
  "commitFeature S w projectPath featureId providedWorktreePath =
     (case commitFeature_try S w projectPath featureId
             (commitWorkDir S w projectPath featureId providedWorktreePath) of
        (Inl e, w') \<Rightarrow> (Inr None, w')
      | (Inr v, w') \<Rightarrow> (Inr v, w'))"

section \<open>Worktrees\<close>

definition resolveWorktreePath :: "'g deps \<Rightarrow> string \<Rightarrow> string \<Rightarrow> string" where
  "resolveWorktreePath S projectPath currentPath =
     (if pathIsAbsolute S currentPath then pathResolve S currentPath
      else pathResolveFrom S projectPath currentPath)"

text \<open>
  The loop of \<open>findExistingWorktreeForBranch\<close> over the lines of
  \<open>git worktree list --porcelain\<close>, with \<open>currentPath\<close> and \<open>currentBranch\<close> as
  arguments. The equation for the empty list is the check of the last entry after the loop.
\<close>

fun scanWorktreeLines ::
  "'g deps \<Rightarrow> string \<Rightarrow> string \<Rightarrow> string option \<Rightarrow> string option \<Rightarrow> string list
     \<Rightarrow> string option" where
  "scanWorktreeLines S projectPath branchName currentPath currentBranch [] =
     (if truthy currentPath \<and> truthy currentBranch \<and> currentBranch = Some branchName
      then map_option (resolveWorktreePath S projectPath) currentPath
      else None)"
| "scanWorktreeLines S projectPath branchName currentPath currentBranch (line # rest) =
     (if startsWith line ''worktree '' then
        scanWorktreeLines S projectPath branchName (Some (drop 9 line)) currentBranch rest
      else if startsWith line ''branch '' then
        scanWorktreeLines S projectPath branchName currentPath
          (Some (replace_first (drop 7 line) ''refs/heads/'' [])) rest
      else if line = [] \<and> truthy currentPath \<and> truthy currentBranch then
        (if currentBranch = Some branchName
         then map_option (resolveWorktreePath S projectPath) currentPath
         else scanWorktreeLines S projectPath branchName None None rest)
      else scanWorktreeLines S projectPath branchName currentPath currentBranch rest)"

definition findExistingWorktreeForBranch ::
  "'g deps \<Rightarrow> 'g world \<Rightarrow> string \<Rightarrow> string \<Rightarrow> string option \<times> 'g world" where
  "findExistingWorktreeForBranch S w projectPath branchName =
     (case execAsync S w GitWorktreeList projectPath of
        (ExecFail e, w1) \<Rightarrow> (None, w1)
      | (ExecOk out err, w1) \<Rightarrow>
          (scanWorktreeLines S projectPath branchName None None (split_lines out), w1))"

text \<open>
  \<open>setupWorktree\<close>. An exception of \<open>fs.mkdir\<close> is not caught and rejects the promise
  (\<open>Inl\<close>); a failing \<open>git branch\<close> is ignored; a failing \<open>git worktree add\<close> falls
  back to the project path.
\<close>

definition setupWorktree ::
  "'g deps \<Rightarrow> 'g world \<Rightarrow> string \<Rightarrow> string \<Rightarrow> string \<Rightarrow> (js_error + string) \<times> 'g world" where
  "setupWorktree S w projectPath featureId branchName =
     (case findExistingWorktreeForBranch S w projectPath branchName of
        (existingWorktree, w1) \<Rightarrow>
          (case (if truthy existingWorktree then existingWorktree else None) of
             Some existing \<Rightarrow> (Inr existing, w1)
           | None \<Rightarrow>
               let worktreesDir = pathJoin S projectPath ''.worktrees'';
                   worktreePath = pathJoin S worktreesDir featureId
               in case fsMkdir S worktreesDir (external w1) of
                    (Some e, g) \<Rightarrow> (Inl e, w1\<lparr>external := g\<rparr>)
                  | (None, g) \<Rightarrow>
                      let w2 = w1\<lparr>external := g\<rparr>
                      in if fsAccess S worktreePath (external w2)
                         then (Inr (pathResolve S worktreePath), w2)
                         else
                           (case execAsync S w2 (GitBranch branchName) projectPath of
                              (r3, w3) \<Rightarrow>
                                (case execAsync S w3 (GitWorktreeAdd worktreePath branchName)
                                        projectPath of
                                   (ExecOk out err, w4) \<Rightarrow> (Inr (pathResolve S worktreePath), w4)
                                 | (ExecFail e, w4) \<Rightarrow> (Inr (pathResolve S projectPath), w4)))))"

section \<open>Running the agent\<close>

text \<open>
  What the provider's stream yields. An assistant message carries content blocks (none when
  the content is missing); a tool input is its pretty-printed JSON text, absent when the
  input is missing. \<open>ErrorMsg\<close> carries \<open>msg.error\<close>, \<open>ResultMsg\<close> the subtype.
\<close>

datatype content_block = TextBlock string | ToolUseBlock string "string option" | OtherBlock

datatype provider_msg =
    AssistantMsg "content_block list"
  | ErrorMsg string
  | ResultMsg string
  | OtherMsg

text \<open>
  One agent run, as the service sees it at the \<open>await\<close> of the stream's next message:
  the stream yields a message, or throws (an abort, a provider failure), or the debounce
  timer fires first. The stream ends where the list ends. The prompt, the model and the
  options of the query decide nothing in the service but this sequence, and the properties
  below hold for every sequence.
\<close>

datatype stream_item = Yield provider_msg | Throw js_error | TimerFires

record agent_state =
  responseText :: string
  writeTimeout :: bool

definition writeToFile :: "'g world \<Rightarrow> string \<times> string \<Rightarrow> string \<Rightarrow> 'g world" where
  "writeToFile w key text = w\<lparr>contextFiles := (contextFiles w)(key \<mapsto> text)\<rparr>"

definition authFailedMessage :: string where
  "authFailedMessage =
     ''Authentication failed: Invalid or expired API key. '' @
     ''Please check your ANTHROPIC_API_KEY or GOOGLE_API_KEY, or run '' @ [CHR 0x27] @
     ''claude login'' @ [CHR 0x27] @ '' to re-authenticate.''"

definition isAuthText :: "string \<Rightarrow> bool" where
  "isAuthText t \<longleftrightarrow>
     t \<noteq> [] \<and>
     (js_includes t ''Invalid API key'' \<or> js_includes t ''authentication_failed'' \<or>
      js_includes t ''Fix external API key'')"

text \<open>The wrench emoji of the tool label, as its UTF-8 bytes.\<close>

definition toolIcon :: string where
  "toolIcon = [CHR 0xF0, CHR 0x9F, CHR 0x94, CHR 0xA7]"

definition appendText :: "string \<Rightarrow> string \<Rightarrow> string" where
  "appendText rt t =
     (if rt \<noteq> [] \<and> \<not> endsWith rt [newline, newline]
      then (if endsWith rt [newline] then rt @ [newline] else rt @ [newline, newline])
      else rt) @ t"

definition appendTool :: "string \<Rightarrow> string \<Rightarrow> string option \<Rightarrow> string" where
  "appendTool rt name input =
     (if rt \<noteq> [] \<and> \<not> endsWith rt [newline] then rt @ [newline] else rt) @
     [newline] @ toolIcon @ '' Tool: '' @ name @ [newline] @
     (case input of None \<Rightarrow> [] | Some json \<Rightarrow> ''Input: '' @ json @ [newline])"

text \<open>
  The inner loop over the content blocks of one assistant message. A text block with an
  authentication signal throws after the text is appended and before \<open>scheduleWrite\<close>.
\<close>

fun processBlocks ::
  "'g world \<Rightarrow> string \<Rightarrow> agent_state \<Rightarrow> content_block list
     \<Rightarrow> js_error option \<times> agent_state \<times> 'g world" where
  "processBlocks w featureId st [] = (None, st, w)"
| "processBlocks w featureId st (TextBlock t # blocks) =
     (if isAuthText t
      then (Some (newError authFailedMessage),
            st\<lparr>responseText := appendText (responseText st) t\<rparr>, w)
      else processBlocks (emitAutoModeEvent w (Progress featureId t)) featureId
             \<lparr>responseText = appendText (responseText st) t, writeTimeout = True\<rparr> blocks)"
| "processBlocks w featureId st (ToolUseBlock name input # blocks) =
     processBlocks (emitAutoModeEvent w (ToolUsed featureId name input)) featureId
       \<lparr>responseText = appendTool (responseText st) name input, writeTimeout = True\<rparr> blocks"
| "processBlocks w featureId st (OtherBlock # blocks) = processBlocks w featureId st blocks"

text \<open>
  The \<open>for await\<close> loop. The result is the exception that ended it, if any, with the
  text accumulated and whether a debounce timer is armed at that moment.
\<close>

fun consumeStream ::
  "'g world \<Rightarrow> string \<times> string \<Rightarrow> string \<Rightarrow> agent_state \<Rightarrow> stream_item list
     \<Rightarrow> js_error option \<times> agent_state \<times> 'g world" where
  "consumeStream w key featureId st [] = (None, st, w)"
| "consumeStream w key featureId st (Throw e # rest) = (Some e, st, w)"
| "consumeStream w key featureId st (TimerFires # rest) =
     (if writeTimeout st
      then consumeStream (writeToFile w key (responseText st)) key featureId
             (st\<lparr>writeTimeout := False\<rparr>) rest
      else consumeStream w key featureId st rest)"
| "consumeStream w key featureId st (Yield (AssistantMsg blocks) # rest) =
     (case processBlocks w featureId st blocks of
        (Some e, st', w') \<Rightarrow> (Some e, st', w')
      | (None, st', w') \<Rightarrow> consumeStream w' key featureId st' rest)"
| "consumeStream w key featureId st (Yield (ErrorMsg m) # rest) =
     (Some (newError (if m = [] then ''Unknown error'' else m)), st, w)"
| "consumeStream w key featureId st (Yield (ResultMsg subtype) # rest) =
     (if subtype = ''success''
      then consumeStream w key featureId (st\<lparr>writeTimeout := True\<rparr>) rest
      else consumeStream w key featureId st rest)"
| "consumeStream w key featureId st (Yield OtherMsg # rest) =
     consumeStream w key featureId st rest"

text \<open>
  The text the two loops accumulate, as a function of the messages alone: \<open>blocksText\<close>
  for the inner loop, which stops at a text block with an authentication signal
  (\<open>blocksThrow\<close>), and \<open>streamText\<close> for the outer loop, which stops where the
  stream throws or brings an error message.
\<close>

fun blocksText :: "string \<Rightarrow> content_block list \<Rightarrow> string" where
  "blocksText rt [] = rt"
| "blocksText rt (TextBlock t # blocks) =
     (if isAuthText t then appendText rt t else blocksText (appendText rt t) blocks)"
| "blocksText rt (ToolUseBlock name input # blocks) =
     blocksText (appendTool rt name input) blocks"
| "blocksText rt (OtherBlock # blocks) = blocksText rt blocks"

fun blocksThrow :: "content_block list \<Rightarrow> bool" where
  "blocksThrow [] = False"
| "blocksThrow (TextBlock t # blocks) = (isAuthText t \<or> blocksThrow blocks)"
| "blocksThrow (ToolUseBlock name input # blocks) = blocksThrow blocks"
| "blocksThrow (OtherBlock # blocks) = blocksThrow blocks"

fun streamText :: "string \<Rightarrow> stream_item list \<Rightarrow> string" where
  "streamText rt [] = rt"
| "streamText rt (Throw e # rest) = rt"
| "streamText rt (TimerFires # rest) = streamText rt rest"
| "streamText rt (Yield (AssistantMsg blocks) # rest) =
     (if blocksThrow blocks then blocksText rt blocks
      else streamText (blocksText rt blocks) rest)"
| "streamText rt (Yield (ErrorMsg m) # rest) = rt"
| "streamText rt (Yield (ResultMsg subtype) # rest) = streamText rt rest"
| "streamText rt (Yield OtherMsg # rest) = streamText rt rest"

definition followUpSeparator :: string where
  "followUpSeparator = ''\<newline>\<newline>---\<newline>\<newline>## Follow-up Session\<newline>\<newline>''"

definition initialResponseText :: "string option \<Rightarrow> string" where
  "initialResponseText previousContent =
     (case previousContent of
        None \<Rightarrow> []
      | Some pc \<Rightarrow> if pc = [] then [] else pc @ followUpSeparator)"

text \<open>What a stream adds to a text that ends with the separator.\<close>

definition newOutput :: "stream_item list \<Rightarrow> string" where
  "newOutput stream = drop (length followUpSeparator) (streamText followUpSeparator stream)"

definition mockOutput :: string where
  "mockOutput =
     ''# Mock Agent Output\<newline>\<newline>## Summary\<newline>'' @
     ''This is a mock agent response for CI/CD testing.\<newline>\<newline>'' @
     ''## Changes Made\<newline>- Created '' @ [CHR 0x60] @ ''yellow.txt'' @ [CHR 0x60] @
     '' with content '' @ [CHR 0x22] @ ''yellow'' @ [CHR 0x22] @ ''\<newline>\<newline>'' @
     ''## Notes\<newline>'' @
     ''This mock response was generated because AUTOMAKER_MOCK_AGENT=true was set.\<newline>''"

text \<open>The branch of \<open>runAgent\<close> taken in mock mode.\<close>

definition runAgent_mock ::
  "'g deps \<Rightarrow> 'g world \<Rightarrow> string \<Rightarrow> string \<Rightarrow> string \<Rightarrow> (js_error + unit) \<times> 'g world" where
  "runAgent_mock S w workDir featureId projectPath =
     (let w1 = emitAutoModeEvent w (Progress featureId ''Mock agent: Analyzing the codebase...'');
          w2 = emitAutoModeEvent w1 (Progress featureId ''Mock agent: Implementing the feature...'')
      in case fsWriteFile S (pathJoin S workDir ''yellow.txt'') ''yellow'' (external w2) of
           (Some e, g) \<Rightarrow> (Inl e, w2\<lparr>external := g\<rparr>)
         | (None, g) \<Rightarrow>
             let w3 = emitAutoModeEvent (w2\<lparr>external := g\<rparr>)
                        (Progress featureId
                           (''Mock agent: Created yellow.txt file with content '' @
                            [CHR 0x27] @ ''yellow'' @ [CHR 0x27]))
             in (Inr (), writeToFile w3 (projectPath, featureId) mockOutput))"

text \<open>
  \<open>runAgent\<close>. After the loop the timer is cleared and the text is written once more.
  An exception leaves the loop and the function at once; a timer armed at that moment stays
  armed and is recorded in \<open>timers\<close>.
\<close>

definition runAgent ::
  "'g deps \<Rightarrow> 'g world \<Rightarrow> string \<Rightarrow> string \<Rightarrow> string \<Rightarrow> string option \<Rightarrow> stream_item list
     \<Rightarrow> (js_error + unit) \<times> 'g world" where
  "runAgent S w workDir featureId projectPath previousContent stream =
     (if mockAgent S then runAgent_mock S w workDir featureId projectPath
      else
        case consumeStream w (projectPath, featureId) featureId
               \<lparr>responseText = initialResponseText previousContent, writeTimeout = False\<rparr>
               stream of
          (Some e, st, w1) \<Rightarrow>
            (Inl e,
             if writeTimeout st
             then w1\<lparr>timers := timers w1 @ [((projectPath, featureId), responseText st)]\<rparr>
             else w1)
        | (None, st, w1) \<Rightarrow>
            (Inr (), writeToFile w1 (projectPath, featureId) (responseText st)))"

text \<open>The armed timers fire: each writes its text.\<close>

definition fireTimers :: "'g world \<Rightarrow> 'g world" where
  "fireTimers w =
     fold (\<lambda>(key, text) w'. writeToFile w' key text) (timers w) (w\<lparr>timers := []\<rparr>)"

section \<open>Executing a feature\<close>

definition alreadyRunning :: "string \<Rightarrow> js_error" where
  "alreadyRunning featureId = newError (''Feature '' @ featureId @ '' is already running'')"

definition isRunningFeature :: "'g world \<Rightarrow> string \<Rightarrow> bool" where
  "isRunningFeature w featureId \<longleftrightarrow> map_of (runningFeatures w) featureId \<noteq> None"

text \<open>
  The first statement of \<open>executeFeature\<close>, of \<open>executeFeatureWithContext\<close> and of
  \<open>followUpFeature\<close>: the test \<open>runningFeatures.has(featureId)\<close>. In
  \<open>executeFeature\<close> the first \<open>await\<close> follows it.
\<close>

definition runningGuard :: "'g world \<Rightarrow> string \<Rightarrow> js_error + unit" where
  "runningGuard w featureId =
     (if isRunningFeature w featureId then Inl (alreadyRunning featureId) else Inr ())"

text \<open>\<open>feature.branchName || null\<close>.\<close>

definition branchNameOf :: "Feature \<Rightarrow> string option" where
  "branchNameOf feature = (if truthy (fBranchName feature) then fBranchName feature else None)"

text \<open>
  The worktree of a run, as \<open>executeFeature\<close> and \<open>executeFeatureWithContext\<close> both
  derive it: none without \<open>useWorktrees\<close> or a branch name, else the existing worktree
  of the branch, else a new one.
\<close>

definition deriveWorktree ::
  "'g deps \<Rightarrow> 'g world \<Rightarrow> string \<Rightarrow> string \<Rightarrow> bool \<Rightarrow> string option
     \<Rightarrow> (js_error + string option) \<times> 'g world" where
  "deriveWorktree S w projectPath featureId useWorktrees branchName =
     (case (if useWorktrees then branchName else None) of
        None \<Rightarrow> (Inr None, w)
      | Some bn \<Rightarrow>
          (case findExistingWorktreeForBranch S w projectPath bn of
             (found, w1) \<Rightarrow>
               if truthy found then (Inr found, w1)
               else (case setupWorktree S w1 projectPath featureId bn of
                       (Inl e, w2) \<Rightarrow> (Inl e, w2)
                     | (Inr created, w2) \<Rightarrow> (Inr (Some created), w2))))"

definition workDirOf :: "'g deps \<Rightarrow> string \<Rightarrow> string option \<Rightarrow> string" where
  "workDirOf S projectPath worktreePath =
     (case (if truthy worktreePath then worktreePath else None) of
        Some wt \<Rightarrow> pathResolve S wt
      | None \<Rightarrow> pathResolve S projectPath)"

definition notFound :: "string \<Rightarrow> js_error" where
  "notFound featureId = newError (''Feature '' @ featureId @ '' not found'')"

text \<open>
  The run of a feature is written twice in the service, in \<open>executeFeature\<close> after the
  test for an existing context and in \<open>executeFeatureWithContext\<close> after its own test
  of the registry. The two copies differ in the placeholder title of the start event, in
  \<open>isAutoMode\<close>, in the prompt, in the previous content handed to \<open>runAgent\<close> and in
  the wording of the completion message; \<open>featureRun\<close> takes these as arguments. It is
  cut at the \<open>await\<close> of the agent into three parts.

  \<open>featureRun_begin\<close>: the start event, then inside \<open>try\<close> the load of the feature,
  the worktree, the insertion into the registry and the status \<open>in_progress\<close>. Its
  result is the working directory, or the exception thrown.
\<close>

definition featureRun_begin ::
  "'g deps \<Rightarrow> 'g world \<Rightarrow> string \<Rightarrow> string \<Rightarrow> bool \<Rightarrow> bool \<Rightarrow> string
     \<Rightarrow> (js_error + string) \<times> 'g world" where
  "featureRun_begin S w projectPath featureId useWorktrees isAutoMode title =
     (let abortController = nextController w;
          w0 = emitAutoModeEvent (w\<lparr>nextController := Suc abortController\<rparr>)
                 (FeatureStart featureId title)
      in case loadFeature w0 projectPath featureId of
           None \<Rightarrow> (Inl (notFound featureId), w0)
         | Some feature \<Rightarrow>
             (case deriveWorktree S w0 projectPath featureId useWorktrees
                     (branchNameOf feature) of
                (Inl e, w1) \<Rightarrow> (Inl e, w1)
              | (Inr worktreePath, w1) \<Rightarrow>
                  let w2 = w1\<lparr>runningFeatures :=
                             AList.update featureId
                               \<lparr>rfFeatureId = featureId, rfProjectPath = projectPath,
                                rfWorktreePath = worktreePath,
                                rfBranchName = branchNameOf feature,
                                rfAbortController = abortController,
                                rfIsAutoMode = isAutoMode, rfStartTime = clock w1\<rparr>
                               (runningFeatures w1)\<rparr>
                  in (Inr (workDirOf S projectPath worktreePath),
                      updateFeatureStatus w2 projectPath featureId ''in_progress'')))"

text \<open>
  \<open>featureRun_agent\<close>: the rest of the \<open>try\<close> block. The completion message reads
  the start time from the registry entry, a \<open>TypeError\<close> when the entry is gone.
\<close>

definition roundSeconds :: "nat \<Rightarrow> nat" where
  "roundSeconds ms = (ms + 500) div 1000"

definition featureRun_agent ::
  "'g deps \<Rightarrow> 'g world \<Rightarrow> string \<Rightarrow> string \<Rightarrow> string \<Rightarrow> string option \<Rightarrow> string
     \<Rightarrow> stream_item list \<Rightarrow> (js_error + unit) \<times> 'g world" where
  "featureRun_agent S w projectPath featureId workDir previousContent completed stream =
     (case runAgent S w workDir featureId projectPath previousContent stream of
        (Inl e, w1) \<Rightarrow> (Inl e, w1)
      | (Inr u, w1) \<Rightarrow>
          let w2 = updateFeatureStatus w1 projectPath featureId ''waiting_approval''
          in case map_of (runningFeatures w2) featureId of
               None \<Rightarrow>
                 (Inl (JsError ''TypeError''
                         ''Cannot read properties of undefined (reading startTime)''), w2)
             | Some running \<Rightarrow>
                 (Inr (),
                  emitAutoModeEvent w2
                    (FeatureComplete featureId True
                       (completed @ string_of_nat (roundSeconds (clock w2 - rfStartTime running))
                        @ ''s''))))"

text \<open>
  \<open>featureRun_end\<close>: the \<open>catch\<close> clause, when the \<open>try\<close> block has thrown, and
  the \<open>finally\<close> clause.
\<close>

definition featureRun_catch :: "'g deps \<Rightarrow> 'g world \<Rightarrow> string \<Rightarrow> string \<Rightarrow> js_error \<Rightarrow> 'g world" where
  "featureRun_catch S w projectPath featureId e =
     (let errorInfo = classifyError S e
      in if isAbort errorInfo
         then emitAutoModeEvent w (FeatureComplete featureId False ''Feature stopped by user'')
         else emitAutoModeEvent (updateFeatureStatus w projectPath featureId ''backlog'')
                (ErrorEvent featureId (message errorInfo)
                   (if isAuth errorInfo then ''authentication'' else ''execution'')))"

definition featureRun_end ::
  "'g deps \<Rightarrow> string \<Rightarrow> string \<Rightarrow> (js_error + unit) \<times> 'g world \<Rightarrow> 'g world" where
  "featureRun_end S projectPath featureId rw =
     (let w1 = (case fst rw of
                  Inl e \<Rightarrow> featureRun_catch S (snd rw) projectPath featureId e
                | Inr v \<Rightarrow> snd rw)
      in w1\<lparr>runningFeatures := AList.delete featureId (runningFeatures w1)\<rparr>)"

text \<open>The \<open>try\<close> block as a whole, and the run: the promise resolves whatever happened.\<close>

definition featureRun_try ::
  "'g deps \<Rightarrow> 'g world \<Rightarrow> string \<Rightarrow> string \<Rightarrow> bool \<Rightarrow> bool \<Rightarrow> string \<Rightarrow> string option
     \<Rightarrow> string \<Rightarrow> stream_item list \<Rightarrow> (js_error + unit) \<times> 'g world" where
  "featureRun_try S w projectPath featureId useWorktrees isAutoMode title previousContent
     completed stream =
     (case featureRun_begin S w projectPath featureId useWorktrees isAutoMode title of
        (Inl e, w1) \<Rightarrow> (Inl e, w1)
      | (Inr workDir, w1) \<Rightarrow>
          featureRun_agent S w1 projectPath featureId workDir previousContent completed stream)"

definition featureRun ::
  "'g deps \<Rightarrow> 'g world \<Rightarrow> string \<Rightarrow> string \<Rightarrow> bool \<Rightarrow> bool \<Rightarrow> string \<Rightarrow> string option
     \<Rightarrow> string \<Rightarrow> stream_item list \<Rightarrow> (js_error + unit) \<times> 'g world" where
  "featureRun S w projectPath featureId useWorktrees isAutoMode title previousContent
     completed stream =
     (Inr (),
      featureRun_end S projectPath featureId
        (featureRun_try S w projectPath featureId useWorktrees isAutoMode title previousContent
           completed stream))"

definition executeFeature_fresh ::
  "'g deps \<Rightarrow> 'g world \<Rightarrow> string \<Rightarrow> string \<Rightarrow> bool \<Rightarrow> bool \<Rightarrow> stream_item list
     \<Rightarrow> (js_error + unit) \<times> 'g world" where
  "executeFeature_fresh S w projectPath featureId useWorktrees isAutoMode stream =
     featureRun S w projectPath featureId useWorktrees isAutoMode ''Loading...'' None
       ''Feature completed in '' stream"

definition executeFeatureWithContext ::
  "'g deps \<Rightarrow> 'g world \<Rightarrow> string \<Rightarrow> string \<Rightarrow> string \<Rightarrow> bool \<Rightarrow> stream_item list
     \<Rightarrow> (js_error + unit) \<times> 'g world" where
  "executeFeatureWithContext S w projectPath featureId context useWorktrees stream =
     (case runningGuard w featureId of
        Inl e \<Rightarrow> (Inl e, w)
      | Inr u \<Rightarrow>
          featureRun S w projectPath featureId useWorktrees False ''Resuming...'' (Some context)
            ''Feature resumed and completed in '' stream)"

text \<open>
  \<open>executeFeature\<close> and \<open>resumeFeature\<close> call each other: the first resumes when a
  context file exists, the second starts fresh when none exists. The result is how the
  promise settles; \<open>stream\<close> is what the agent will yield if the run reaches it.
\<close>

function executeFeature ::
  "'g deps \<Rightarrow> 'g world \<Rightarrow> string \<Rightarrow> string \<Rightarrow> bool \<Rightarrow> bool \<Rightarrow> stream_item list
     \<Rightarrow> (js_error + unit) \<times> 'g world"
  and resumeFeature ::
  "'g deps \<Rightarrow> 'g world \<Rightarrow> string \<Rightarrow> string \<Rightarrow> bool \<Rightarrow> stream_item list
     \<Rightarrow> (js_error + unit) \<times> 'g world" where
  "executeFeature S w projectPath featureId useWorktrees isAutoMode stream =
     (case runningGuard w featureId of
        Inl e \<Rightarrow> (Inl e, w)
      | Inr u \<Rightarrow>
          if contextExists w projectPath featureId
          then resumeFeature S w projectPath featureId useWorktrees stream
          else executeFeature_fresh S w projectPath featureId useWorktrees isAutoMode stream)"
| "resumeFeature S w projectPath featureId useWorktrees stream =
     (case contextFiles w (projectPath, featureId) of
        Some context \<Rightarrow>
          executeFeatureWithContext S w projectPath featureId context useWorktrees stream
      | None \<Rightarrow> executeFeature S w projectPath featureId useWorktrees False stream)"
  by pat_completeness auto
termination
  by (relation "measure (\<lambda>x. case x of
          Inl (S, w, projectPath, featureId, r) \<Rightarrow>
            (if contextExists w projectPath featureId then 1 else 0)
        | Inr (S, w, projectPath, featureId, r) \<Rightarrow>
            (if contextExists w projectPath featureId then 0 else 1))")
     (auto simp: contextExists_def)

declare executeFeature.simps [simp del] resumeFeature.simps [simp del]

section \<open>Two calls for one feature\<close>

text \<open>
  \<open>featureRun_rest\<close>: what a run does after \<open>featureRun_begin\<close>, that is, the agent
  and the completion when the beginning succeeded, then the \<open>catch\<close> and \<open>finally\<close>
  clauses.

  \<open>twoCalls\<close>: two calls of \<open>executeFeature\<close> for the same feature, made one after
  the other without waiting, for a feature without context. Each call runs to its first
  \<open>await\<close>, the one of \<open>contextExists\<close>, which follows the test of the registry:
  both tests see the world of the moment of the calls. The event loop then resumes the
  calls at their awaits in some order; here the first call runs up to the \<open>await\<close> of its
  agent, then the second does, then the first finishes, then the second. The result is the
  two outcomes of the test, the registry once both calls have put their entry, the two
  outcomes of the \<open>try\<close> blocks and the world at the end.
\<close>

definition featureRun_rest ::
  "'g deps \<Rightarrow> 'g world \<Rightarrow> string \<Rightarrow> string \<Rightarrow> js_error + string \<Rightarrow> string option \<Rightarrow> string
     \<Rightarrow> stream_item list \<Rightarrow> (js_error + unit) \<times> 'g world" where
  "featureRun_rest S w projectPath featureId begun previousContent completed stream =
     (let rw = (case begun of
                  Inl e \<Rightarrow> (Inl e, w)
                | Inr workDir \<Rightarrow>
                    featureRun_agent S w projectPath featureId workDir previousContent
                      completed stream)
      in (fst rw, featureRun_end S projectPath featureId rw))"

definition twoCalls ::
  "'g deps \<Rightarrow> 'g world \<Rightarrow> string \<Rightarrow> string \<Rightarrow> stream_item list \<Rightarrow> stream_item list
     \<Rightarrow> (js_error + unit) \<times> (js_error + unit) \<times> (string \<times> RunningFeature) list
        \<times> (js_error + unit) \<times> (js_error + unit) \<times> 'g world" where
  "twoCalls S w projectPath featureId stream1 stream2 =
     (let guard1 = runningGuard w featureId;
          guard2 = runningGuard w featureId;
          bw1 = featureRun_begin S w projectPath featureId False False ''Loading...'';
          bw2 = featureRun_begin S (snd bw1) projectPath featureId False False ''Loading...'';
          registry = runningFeatures (snd bw2);
          rw1 = featureRun_rest S (snd bw2) projectPath featureId (fst bw1) None
                  ''Feature completed in '' stream1;
          rw2 = featureRun_rest S (snd rw1) projectPath featureId (fst bw2) None
                  ''Feature completed in '' stream2
      in (guard1, guard2, registry, fst rw1, fst rw2, snd rw2))"

section \<open>Stopping and status\<close>

definition stopFeature :: "'g world \<Rightarrow> string \<Rightarrow> bool \<times> 'g world" where
  "stopFeature w featureId =
     (case map_of (runningFeatures w) featureId of
        None \<Rightarrow> (False, w)
      | Some running \<Rightarrow> (True, w\<lparr>aborted := insert (rfAbortController running) (aborted w)\<rparr>))"

record status_report =
  srIsRunning :: bool
  srRunningFeatures :: "string list"
  srRunningCount :: nat

definition getStatus :: "'g world \<Rightarrow> status_report" where
  "getStatus w =
     \<lparr>srIsRunning = (length (runningFeatures w) > 0),
      srRunningFeatures = map fst (runningFeatures w),
      srRunningCount = length (runningFeatures w)\<rparr>"

section \<open>Node's path functions and the shell\<close>

text \<open>
  The POSIX variants of \<open>path.normalize\<close>, \<open>path.join\<close> and \<open>path.resolve\<close>,
  after Node's \<open>lib/path.js\<close>. \<open>normalizeString\<close> walks the segments between
  slashes: an empty segment and \<open>.\<close> are dropped, \<open>..\<close> removes the segment before it,
  or is kept when there is none and the path is relative.
\<close>

fun splitSlash :: "string \<Rightarrow> string list" where
  "splitSlash [] = [[]]"
| "splitSlash (c # cs) =
     (if c = CHR ''/'' then [] # splitSlash cs
      else (case splitSlash cs of
              [] \<Rightarrow> [[c]]
            | s # ss \<Rightarrow> (c # s) # ss))"

fun joinSlash :: "string list \<Rightarrow> string" where
  "joinSlash [] = []"
| "joinSlash [s] = s"
| "joinSlash (s # t # ss) = s @ ''/'' @ joinSlash (t # ss)"

fun normalizeSegments :: "bool \<Rightarrow> string list \<Rightarrow> string list \<Rightarrow> string list" where
  "normalizeSegments allowAboveRoot res [] = res"
| "normalizeSegments allowAboveRoot res (s # ss) =
     (if s = [] \<or> s = ''.'' then normalizeSegments allowAboveRoot res ss
      else if s = ''..'' then
        (if res \<noteq> [] \<and> last res \<noteq> ''..''
         then normalizeSegments allowAboveRoot (butlast res) ss
         else if allowAboveRoot then normalizeSegments allowAboveRoot (res @ [''..'']) ss
         else normalizeSegments allowAboveRoot res ss)
      else normalizeSegments allowAboveRoot (res @ [s]) ss)"

definition normalizeString :: "string \<Rightarrow> bool \<Rightarrow> string" where
  "normalizeString path allowAboveRoot =
     joinSlash (normalizeSegments allowAboveRoot [] (splitSlash path))"



text \<open>
  \<open>path.resolve\<close> goes through its arguments from the right, and then through the
  working directory of the process, until the path built so far is absolute.
\<close>

fun resolveParts :: "string list \<Rightarrow> string \<Rightarrow> string \<times> bool" where
  "resolveParts [] resolvedPath = (resolvedPath, False)"
| "resolveParts (path # rest) resolvedPath =
     (if path = [] then resolveParts rest resolvedPath
      else if hd path = CHR ''/'' then (path @ ''/'' @ resolvedPath, True)
      else resolveParts rest (path @ ''/'' @ resolvedPath))"

definition posixResolve :: "string \<Rightarrow> string list \<Rightarrow> string" where
  "posixResolve cwd args =
     (case resolveParts (rev args @ [cwd]) [] of
        (resolvedPath, resolvedAbsolute) \<Rightarrow>
          let normalized = normalizeString resolvedPath (\<not> resolvedAbsolute)
          in if resolvedAbsolute then ''/'' @ normalized
             else if normalized \<noteq> [] then normalized else ''.'')"






section \<open>A model of git worktrees\<close>



















definition absolutePath :: "string \<Rightarrow> bool" where
  "absolutePath p \<longleftrightarrow> startsWith p ''/''"


text \<open>The first worktree of the list that has the branch checked out.\<close>

fun worktreeOfBranch :: "string \<Rightarrow> (string \<times> string option) list \<Rightarrow> string option" where
  "worktreeOfBranch b [] = None"
| "worktreeOfBranch b ((path, br) # es) =
     (if br = Some b then Some path else worktreeOfBranch b es)"









section \<open>Predicates on effects and worlds\<close>

text \<open>
  \<open>sameStores\<close>: two worlds agree on the registry, the two stores, the clock, the timers
  and the controllers, and on every effect other than the commands executed.
\<close>

definition nonExec :: "effect \<Rightarrow> bool" where
  "nonExec e \<longleftrightarrow> (case e of Exec c d \<Rightarrow> False | _ \<Rightarrow> True)"

definition sameStores :: "'g world \<Rightarrow> 'g world \<Rightarrow> bool" where
  "sameStores w w' \<longleftrightarrow>
     featureFiles w' = featureFiles w \<and> contextFiles w' = contextFiles w \<and>
     runningFeatures w' = runningFeatures w \<and> clock w' = clock w \<and>
     timers w' = timers w \<and> nextController w' = nextController w \<and>
     aborted w' = aborted w \<and>
     filter nonExec (trace w') = filter nonExec (trace w)"


text \<open>
  The events that come from the agent, for a feature: its progress and tool events.
  \<open>statusOrAgent\<close> holds of these and of the write of the status \<open>in_progress\<close>;
  \<open>backlogWrite\<close> of the write of the status \<open>backlog\<close>.
\<close>

definition agentEvent :: "string \<Rightarrow> effect \<Rightarrow> bool" where
  "agentEvent featureId e \<longleftrightarrow>
     (case e of
        Emit (Progress f c) \<Rightarrow> f = featureId
      | Emit (ToolUsed f n i) \<Rightarrow> f = featureId
      | _ \<Rightarrow> False)"

definition statusOrAgent :: "string \<Rightarrow> string \<Rightarrow> effect \<Rightarrow> bool" where
  "statusOrAgent projectPath featureId e \<longleftrightarrow>
     e = WriteStatus projectPath featureId ''in_progress'' \<or> agentEvent featureId e"

definition backlogWrite :: "string \<Rightarrow> string \<Rightarrow> effect \<Rightarrow> bool" where
  "backlogWrite projectPath featureId e \<longleftrightarrow> e = WriteStatus projectPath featureId ''backlog''"

definition statusOf :: "'g world \<Rightarrow> string \<Rightarrow> string \<Rightarrow> string option" where
  "statusOf w projectPath featureId = map_option fStatus (featureFiles w (projectPath, featureId))"

text \<open>
  \<open>notTimer\<close>: the items of a stream that come from the provider. \<open>outcome\<close>: how
  the loop over a stream ended and the text accumulated at that moment.
\<close>

definition notTimer :: "stream_item \<Rightarrow> bool" where
  "notTimer i \<longleftrightarrow> i \<noteq> TimerFires"

definition outcome :: "js_error option \<times> agent_state \<times> 'g world \<Rightarrow> js_error option \<times> string" where
  "outcome r = (fst r, responseText (fst (snd r)))"

section \<open>A small concrete environment\<close>

text \<open>
  An environment without external state, used to run the operations on concrete inputs:
  the type check and the git commit fail, every other command succeeds, and no worktree
  directory exists. An error named \<open>AbortError\<close> is classified as an abort.
\<close>

definition demoDeps :: "unit deps" where
  "demoDeps =
     \<lparr>classifyError =
        (\<lambda>e. \<lparr>isAbort = (errName e = ''AbortError''), isAuth = False, message = errMessage e\<rparr>),
      mockAgent = False,
      pathJoin = (\<lambda>a b. a @ ''/'' @ b),
      pathResolve = (\<lambda>p. p),
      pathResolveFrom = (\<lambda>a b. a @ ''/'' @ b),
      pathIsAbsolute = (\<lambda>p. startsWith p ''/''),
      shExec =
        (\<lambda>cmd cwd g.
           case cmd of
             GitStatusPorcelain \<Rightarrow> (ExecOk '' M src/app.ts'' [], g)
           | GitCommit m \<Rightarrow> (ExecFail (newError ''Command failed: git commit''), g)
           | Shell c \<Rightarrow>
               if c = ''npm run typecheck''
               then (ExecFail (newError ''Command failed: npm run typecheck''), g)
               else (ExecOk ''ok'' [], g)
           | _ \<Rightarrow> (ExecOk [] [], g)),
      fsAccess = (\<lambda>p g. False),
      fsMkdir = (\<lambda>p g. (None, g)),
      fsWriteFile = (\<lambda>p c g. (None, g))\<rparr>"

definition demoFeature :: Feature where
  "demoFeature =
     \<lparr>fId = ''f1'', fDescription = js ''Add login page'', fStatus = ''backlog'',
      fBranchName = None, fUpdatedAt = None, fJustFinishedAt = None\<rparr>"

definition demoWorld :: "unit world" where
  "demoWorld =
     \<lparr>runningFeatures = [], nextController = 0, aborted = {}, clock = 0,
      featureFiles = [(''/proj'', ''f1'') \<mapsto> demoFeature],
      contextFiles = Map.empty, timers = [], trace = [], external = ()\<rparr>"

definition demoStream :: "stream_item list" where
  "demoStream =
     [Yield (AssistantMsg [TextBlock ''Working on it'', ToolUseBlock ''Edit'' None]),
      TimerFires,
      Yield (AssistantMsg [TextBlock ''Done'']),
      Yield (ResultMsg ''success'')]"

definition demoRunning :: RunningFeature where
  "demoRunning =
     \<lparr>rfFeatureId = ''f1'', rfProjectPath = ''/proj'', rfWorktreePath = None,
      rfBranchName = None, rfAbortController = 0, rfIsAutoMode = False, rfStartTime = 0\<rparr>"

definition demoWorldRunning :: "unit world" where
  "demoWorldRunning = demoWorld\<lparr>runningFeatures := [(''f1'', demoRunning)], nextController := 1\<rparr>"

definition demoWorldWith :: "string \<Rightarrow> unit world" where
  "demoWorldWith transcript = demoWorld\<lparr>contextFiles := [(''/proj'', ''f1'') \<mapsto> transcript]\<rparr>"

section \<open>Properties\<close>

subsection \<open>What each operation leaves unchanged\<close>

lemma sameStores_refl: "sameStores w w"
  by (simp add: sameStores_def)

lemma sameStores_execAsyncD: "execAsync S w cmd cwd = (r, w') \<Longrightarrow> sameStores w w'"
  by (auto simp: sameStores_def execAsync_def nonExec_def split: prod.splits)

lemma sameStores_findD: "findExistingWorktreeForBranch S w p b = (r, w') \<Longrightarrow> sameStores w w'"
  by (auto simp: findExistingWorktreeForBranch_def split: prod.splits exec_result.splits
      dest: sameStores_execAsyncD)

lemma sameStores_setupD: "setupWorktree S w p f b = (r, w') \<Longrightarrow> sameStores w w'"
  unfolding setupWorktree_def Let_def
  by (auto split: prod.splits option.splits exec_result.splits if_splits
      dest!: sameStores_findD sameStores_execAsyncD simp: sameStores_def)

lemma sameStores_deriveD: "deriveWorktree S w p f u b = (r, w') \<Longrightarrow> sameStores w w'"
  unfolding deriveWorktree_def
  by (auto split: prod.splits option.splits sum.splits if_splits
      dest!: sameStores_findD sameStores_setupD simp: sameStores_def)









lemma filter_nonExec_sub:
  assumes "\<And>e. R e \<Longrightarrow> nonExec e"
  shows "filter R (filter nonExec xs) = filter R xs"
  using assms by (induction xs) auto



lemma sameStores_filter:
  assumes "sameStores w w'" and "\<And>e. R e \<Longrightarrow> nonExec e"
  shows "filter R (trace w') = filter R (trace w)"
proof -
  have "filter R (trace w') = filter R (filter nonExec (trace w'))"
    by (rule filter_nonExec_sub[OF assms(2), symmetric])
  also have "\<dots> = filter R (filter nonExec (trace w))"
    using assms(1) by (simp add: sameStores_def)
  also have "\<dots> = filter R (trace w)"
    by (rule filter_nonExec_sub[OF assms(2)])
  finally show ?thesis .
qed



subsection \<open>The parts of a run\<close>

lemma featureRun_end_not_running:
  "\<not> isRunningFeature (featureRun_end S p f rw) f"
  by (simp add: featureRun_end_def isRunningFeature_def Let_def delete_conv)




lemma featureRun_agent_cases:
  assumes "featureRun_agent S w1 p f wd prev completed items = (r, w2)"
  obtains (thrown) e wa where "runAgent S w1 wd f p prev items = (Inl e, wa)"
      "r = Inl e" "w2 = wa"
  | (gone) wa where "runAgent S w1 wd f p prev items = (Inr (), wa)"
      "map_of (runningFeatures (updateFeatureStatus wa p f ''waiting_approval'')) f = None"
      "r \<noteq> Inr ()" "w2 = updateFeatureStatus wa p f ''waiting_approval''"
  | (completed) wa running where "runAgent S w1 wd f p prev items = (Inr (), wa)"
      "map_of (runningFeatures (updateFeatureStatus wa p f ''waiting_approval'')) f = Some running"
      "r = Inr ()"
      "w2 = emitAutoModeEvent (updateFeatureStatus wa p f ''waiting_approval'')
              (FeatureComplete f True
                 (completed @ string_of_nat (roundSeconds
                    (clock (updateFeatureStatus wa p f ''waiting_approval'') - rfStartTime running))
                  @ ''s''))"
proof -
  obtain r0 wa where ra: "runAgent S w1 wd f p prev items = (r0, wa)"
    by (cases "runAgent S w1 wd f p prev items")
  show thesis
  proof (cases r0)
    case (Inl e)
    with assms ra show thesis by (intro thrown[of e wa]) (simp_all add: featureRun_agent_def)
  next
    case (Inr u)
    show thesis
    proof (cases "map_of (runningFeatures (updateFeatureStatus wa p f ''waiting_approval'')) f")
      case None
      with assms ra Inr show thesis
        by (intro gone[of wa]) (auto simp add: featureRun_agent_def Let_def)
    next
      case (Some running)
      with assms ra Inr show thesis
        by (intro completed[of wa running]) (auto simp add: featureRun_agent_def Let_def)
    qed
  qed
qed


lemma updateFeatureStatus_frame:
  "runningFeatures (updateFeatureStatus w p f s) = runningFeatures w"
  "contextFiles (updateFeatureStatus w p f s) = contextFiles w"
  "featureFiles w (p, f) \<noteq> None \<Longrightarrow> statusOf (updateFeatureStatus w p f s) p f = Some s"
  "featureFiles w (p, f) \<noteq> None \<Longrightarrow> featureFiles (updateFeatureStatus w p f s) (p, f) \<noteq> None"
  "filter (statusOrAgent p f) (trace (updateFeatureStatus w p f ''waiting_approval'')) =
     filter (statusOrAgent p f) (trace w)"
  "filter (backlogWrite p f) (trace (updateFeatureStatus w p f ''waiting_approval'')) =
     filter (backlogWrite p f) (trace w)"
  by (auto simp: updateFeatureStatus_def statusOf_def statusOrAgent_def agentEvent_def
      backlogWrite_def split: option.splits)

lemma emitAutoModeEvent_frame:
  "statusOf (emitAutoModeEvent w e) p f = statusOf w p f"
  "featureFiles (emitAutoModeEvent w e) = featureFiles w"
  "runningFeatures (emitAutoModeEvent w e) = runningFeatures w"
  "contextFiles (emitAutoModeEvent w e) = contextFiles w"
  by (simp_all add: emitAutoModeEvent_def statusOf_def)






subsection \<open>Status transitions of a fresh run\<close>




subsection \<open>Cleanup of the registry\<close>

text \<open>
  C2. A call of \<open>executeFeature\<close> for a feature that is not running resolves, whatever
  the stream brings (completion, an error message, an authentication signal, an abort) and
  whether it runs fresh or resumes, and afterwards the registry has no entry for the
  feature. (A call for a feature that is running is rejected at once; the entry it sees
  belongs to the other run.)
\<close>

theorem executeFeature_cleanup:
  assumes "\<not> isRunningFeature w f"
  shows "fst (executeFeature S w p f u a items) = Inr () \<and>
         \<not> isRunningFeature (snd (executeFeature S w p f u a items)) f"
proof (cases "contextFiles w (p, f)")
  case None
  then show ?thesis
    using assms
    by (simp add: executeFeature.simps runningGuard_def contextExists_def
        executeFeature_fresh_def featureRun_def featureRun_end_not_running)
next
  case (Some ctx)
  then show ?thesis
    using assms
    by (simp add: executeFeature.simps resumeFeature.simps runningGuard_def contextExists_def
        executeFeatureWithContext_def featureRun_def featureRun_end_not_running)
qed

lemma executeFeature_already_running:
  assumes "isRunningFeature w f"
  shows "executeFeature S w p f u a items = (Inl (alreadyRunning f), w)"
  using assms by (simp add: executeFeature.simps runningGuard_def)

theorem executeFeature_cleanup_witness:
  "\<not> isRunningFeature demoWorld ''f1'' \<and>
   fst (executeFeature demoDeps demoWorld ''/proj'' ''f1'' False False demoStream) = Inr () \<and>
   \<not> isRunningFeature
       (snd (executeFeature demoDeps demoWorld ''/proj'' ''f1'' False False demoStream)) ''f1''"
proof -
  have nr: "\<not> isRunningFeature demoWorld ''f1''"
    by (simp add: isRunningFeature_def demoWorld_def)
  from executeFeature_cleanup[OF nr, of demoDeps "''/proj''" False False demoStream] nr
  show ?thesis by simp
qed

subsection \<open>Stopping a feature\<close>

text \<open>
  C10. \<open>stopFeature\<close> leaves the registry as it is. When it returns true it has fired
  the abort signal of the stored controller and \<open>getStatus\<close> still lists the feature;
  when it returns false it has done nothing. The entry goes in the \<open>finally\<close> clause
  of the run: after \<open>featureRun_end\<close> the status no longer lists the feature.
\<close>

theorem stopFeature_keeps_entry:
  "runningFeatures (snd (stopFeature w f)) = runningFeatures w \<and>
   (fst (stopFeature w f) \<longrightarrow>
      f \<in> set (srRunningFeatures (getStatus (snd (stopFeature w f)))) \<and>
      (\<exists>running. map_of (runningFeatures w) f = Some running \<and>
         rfAbortController running \<in> aborted (snd (stopFeature w f)))) \<and>
   (\<not> fst (stopFeature w f) \<longrightarrow> snd (stopFeature w f) = w) \<and>
   f \<notin> set (srRunningFeatures (getStatus (featureRun_end S p f rw)))"
proof -
  have "f \<notin> set (srRunningFeatures (getStatus (featureRun_end S p f rw)))"
    using featureRun_end_not_running[of S p f rw]
    by (simp add: getStatus_def isRunningFeature_def map_of_eq_None_iff)
  moreover have "map_of (runningFeatures w) f = Some r \<Longrightarrow> f \<in> fst ` set (runningFeatures w)" for r
    by (metis map_of_eq_None_iff option.distinct(1))
  ultimately show ?thesis
    by (auto simp: stopFeature_def getStatus_def split: option.splits)
qed


theorem stopFeature_keeps_entry_witness:
  "fst (stopFeature demoWorldRunning ''f1'') \<and>
   ''f1'' \<in> set (srRunningFeatures (getStatus (snd (stopFeature demoWorldRunning ''f1'')))) \<and>
   0 \<in> aborted (snd (stopFeature demoWorldRunning ''f1''))"
proof -
  have h: "fst (stopFeature demoWorldRunning ''f1'')"
    by (simp add: stopFeature_def demoWorldRunning_def)
  have m: "map_of (runningFeatures demoWorldRunning) ''f1'' = Some demoRunning"
    by (simp add: demoWorldRunning_def)
  have c: "rfAbortController demoRunning = 0"
    by (simp add: demoRunning_def)
  from stopFeature_keeps_entry[of demoWorldRunning "''f1''" demoDeps "''/proj''" "(Inr (), demoWorld)"] h
  show ?thesis by (auto simp: m c)
qed

subsection \<open>Resuming from a transcript\<close>

lemma appendText_grows: "\<exists>rest. appendText rt t = rt @ rest"
  by (simp add: appendText_def)

lemma appendTool_grows: "\<exists>rest. appendTool rt n i = rt @ rest"
  by (simp add: appendTool_def)

lemma processBlocks_text:
  "processBlocks w f st bs = (r, st', w') \<Longrightarrow>
     contextFiles w' = contextFiles w \<and> timers w' = timers w \<and>
     (\<exists>rest. responseText st' = responseText st @ rest)"
proof (induction w f st bs arbitrary: r st' w' rule: processBlocks.induct)
  case (1 w f st)
  then show ?case by simp
next
  case (2 w f st t blocks)
  obtain x where x: "appendText (responseText st) t = responseText st @ x"
    using appendText_grows by blast
  show ?case
  proof (cases "isAuthText t")
    case True
    with 2(2) x show ?thesis by auto
  next
    case False
    with 2(2) have "processBlocks (emitAutoModeEvent w (Progress f t)) f
             \<lparr>responseText = appendText (responseText st) t, writeTimeout = True\<rparr> blocks
           = (r, st', w')" by simp
    from 2(1)[OF False this] x show ?thesis
      by (auto simp: emitAutoModeEvent_def)
  qed
next
  case (3 w f st name input blocks)
  obtain x where x: "appendTool (responseText st) name input = responseText st @ x"
    using appendTool_grows by blast
  from 3(2) have "processBlocks (emitAutoModeEvent w (ToolUsed f name input)) f
       \<lparr>responseText = appendTool (responseText st) name input, writeTimeout = True\<rparr> blocks
     = (r, st', w')" by simp
  from 3(1)[OF this] x show ?case
    by (auto simp: emitAutoModeEvent_def)
next
  case (4 w f st blocks)
  then show ?case by simp
qed

lemma featureRun_begin_context:
  assumes "featureRun_begin S w p f u a title = (r, w1)"
  shows "contextFiles w1 = contextFiles w"
  using assms
  unfolding featureRun_begin_def Let_def loadFeature_def
  by (auto split: option.splits prod.splits sum.splits dest!: sameStores_deriveD
      simp: sameStores_def emitAutoModeEvent_def updateFeatureStatus_frame)

lemma featureRun_end_context:
  "contextFiles (featureRun_end S p f rw) = contextFiles (snd rw)"
  by (simp add: featureRun_end_def featureRun_catch_def Let_def updateFeatureStatus_frame
      emitAutoModeEvent_frame split: sum.splits)

lemma processBlocks_blocksText:
  "processBlocks w f st bs = (r, st', w') \<Longrightarrow>
     responseText st' = blocksText (responseText st) bs \<and> (r \<noteq> None \<longleftrightarrow> blocksThrow bs)"
proof (induction w f st bs arbitrary: r st' w' rule: processBlocks.induct)
  case (1 w f st)
  then show ?case by auto
next
  case (2 w f st t blocks)
  show ?case
  proof (cases "isAuthText t")
    case True
    with 2(2) show ?thesis by auto
  next
    case False
    with 2(2) have "processBlocks (emitAutoModeEvent w (Progress f t)) f
             \<lparr>responseText = appendText (responseText st) t, writeTimeout = True\<rparr> blocks
           = (r, st', w')" by simp
    from 2(1)[OF False this] False show ?thesis by simp
  qed
next
  case (3 w f st name input blocks)
  from 3(2) have "processBlocks (emitAutoModeEvent w (ToolUsed f name input)) f
       \<lparr>responseText = appendTool (responseText st) name input, writeTimeout = True\<rparr> blocks
     = (r, st', w')" by simp
  from 3(1)[OF this] show ?case by simp
next
  case (4 w f st blocks)
  from 4(2) have "processBlocks w f st blocks = (r, st', w')" by simp
  from 4(1)[OF this] show ?case by simp
qed

lemma consumeStream_streamText:
  "consumeStream w k f st items = (r, st', w') \<Longrightarrow>
     responseText st' = streamText (responseText st) items"
proof (induction w k f st items arbitrary: r st' w' rule: consumeStream.induct)
  case (3 w key featureId st rest)
  show ?case
  proof (cases "writeTimeout st")
    case True
    with 3(3) have "consumeStream (writeToFile w key (responseText st)) key featureId
             (st\<lparr>writeTimeout := False\<rparr>) rest = (r, st', w')" by simp
    from 3(1)[OF True this] show ?thesis by simp
  next
    case False
    with 3(3) have "consumeStream w key featureId st rest = (r, st', w')" by simp
    from 3(2)[OF False this] show ?thesis by simp
  qed
next
  case (4 w key featureId st blocks rest)
  obtain rb stb wb where pb: "processBlocks w featureId st blocks = (rb, stb, wb)"
    by (cases "processBlocks w featureId st blocks")
  note t = processBlocks_blocksText[OF pb]
  show ?case
  proof (cases rb)
    case None
    with 4(2) pb have "consumeStream wb key featureId stb rest = (r, st', w')" by simp
    from 4(1)[OF pb[symmetric] None refl this] t None show ?thesis by simp
  next
    case (Some e)
    with 4(2) pb t show ?thesis by auto
  qed
next
  case (6 w key featureId st subtype rest)
  show ?case
  proof (cases "subtype = ''success''")
    case True
    with 6(3) have "consumeStream w key featureId (st\<lparr>writeTimeout := True\<rparr>) rest = (r, st', w')"
      by simp
    from 6(1)[OF True this] show ?thesis by simp
  next
    case False
    with 6(3) have "consumeStream w key featureId st rest = (r, st', w')" by simp
    from 6(2)[OF False this] show ?thesis by simp
  qed
qed auto

lemma endsWith_append:
  "length s \<le> length x \<Longrightarrow> endsWith (T @ x) s = endsWith x s"
  by (simp add: endsWith_def)

lemma appendText_prefix:
  "2 \<le> length x \<Longrightarrow> appendText (T @ x) t = T @ appendText x t"
  by (cases "x = []") (simp_all add: appendText_def endsWith_append)

lemma appendTool_prefix:
  "2 \<le> length x \<Longrightarrow> appendTool (T @ x) n i = T @ appendTool x n i"
  by (cases "x = []") (simp_all add: appendTool_def endsWith_append)

lemma length_appendText: "length x \<le> length (appendText x t)"
  by (simp add: appendText_def)

lemma length_appendTool: "length x \<le> length (appendTool x n i)"
  by (simp add: appendTool_def)

lemma blocksText_prefix:
  "2 \<le> length x \<Longrightarrow>
     blocksText (T @ x) bs = T @ blocksText x bs \<and> length x \<le> length (blocksText x bs)"
proof (induction x bs rule: blocksText.induct)
  case (1 rt)
  then show ?case by simp
next
  case (2 rt t blocks)
  have l: "2 \<le> length (appendText rt t)"
    using 2(2) length_appendText[of rt t] by linarith
  show ?case
  proof (cases "isAuthText t")
    case True
    then show ?thesis using 2(2) length_appendText[of rt t] by (simp add: appendText_prefix)
  next
    case False
    from 2(1)[OF False l] False 2(2) length_appendText[of rt t] show ?thesis
      by (simp add: appendText_prefix)
  qed
next
  case (3 rt name input blocks)
  have l: "2 \<le> length (appendTool rt name input)"
    using 3(2) length_appendTool[of rt name input] by linarith
  from 3(1)[OF l] 3(2) length_appendTool[of rt name input] show ?case
    by (simp add: appendTool_prefix)
next
  case (4 rt blocks)
  then show ?case by simp
qed

lemma streamText_prefix:
  "2 \<le> length x \<Longrightarrow> streamText (T @ x) items = T @ streamText x items"
proof (induction x items rule: streamText.induct)
  case (4 rt blocks rest)
  note b = blocksText_prefix[OF 4(2), of T blocks]
  show ?case
  proof (cases "blocksThrow blocks")
    case True
    then show ?thesis using b by simp
  next
    case False
    have "2 \<le> length (blocksText rt blocks)" using b 4(2) by linarith
    from 4(1)[OF False this] False b show ?thesis by simp
  qed
qed simp_all

lemma blocksText_grows: "\<exists>y. blocksText rt bs = rt @ y"
proof (induction rt bs rule: blocksText.induct)
  case (2 rt t blocks)
  then show ?case using appendText_grows[of rt t] by (cases "isAuthText t") auto
next
  case (3 rt name input blocks)
  then show ?case using appendTool_grows[of rt name input] by auto
qed simp_all

lemma streamText_grows: "\<exists>y. streamText rt items = rt @ y"
proof (induction rt items rule: streamText.induct)
  case (4 rt blocks rest)
  then show ?case using blocksText_grows[of rt blocks] by (cases "blocksThrow blocks") auto
qed simp_all

lemma streamText_separator:
  "streamText (T @ followUpSeparator) items = T @ followUpSeparator @ newOutput items"
proof -
  have l: "2 \<le> length followUpSeparator" by (simp add: followUpSeparator_def)
  obtain y where y: "streamText followUpSeparator items = followUpSeparator @ y"
    using streamText_grows by blast
  then have "newOutput items = y" by (simp add: newOutput_def)
  with y streamText_prefix[OF l, of T items] show ?thesis by simp
qed

lemma newOutput_text:
  "\<not> isAuthText t \<Longrightarrow> newOutput [Yield (AssistantMsg [TextBlock t])] = t"
  by (simp add: newOutput_def appendText_def endsWith_def followUpSeparator_def newline_def)


lemma runAgent_completed_context:
  assumes "runAgent S w wd f p prev items = (Inr u, w')"
  shows "contextFiles w' (p, f) =
           Some (if mockAgent S then mockOutput
                 else streamText (initialResponseText prev) items)"
proof (cases "mockAgent S")
  case True
  with assms show ?thesis
    by (auto simp: runAgent_def runAgent_mock_def Let_def writeToFile_def
        split: prod.splits option.splits)
next
  case False
  let ?st0 = "\<lparr>responseText = initialResponseText prev, writeTimeout = False\<rparr>"
  obtain rc st wc where c: "consumeStream w (p, f) f ?st0 items = (rc, st, wc)"
    by (cases "consumeStream w (p, f) f ?st0 items")
  from consumeStream_streamText[OF c]
  have t: "responseText st = streamText (initialResponseText prev) items" by simp
  from assms False c show ?thesis
    by (cases rc) (auto simp: runAgent_def writeToFile_def t)
qed

lemma featureRun_try_completed_context:
  assumes "featureRun_try S w p f u a title prev completed items = (Inr v, w2)"
  shows "contextFiles w2 (p, f) =
           Some (if mockAgent S then mockOutput
                 else streamText (initialResponseText prev) items)"
proof -
  obtain rb w1 where b: "featureRun_begin S w p f u a title = (rb, w1)"
    by (cases "featureRun_begin S w p f u a title")
  from assms b obtain wd where wd: "rb = Inr wd"
    by (cases rb) (auto simp: featureRun_try_def)
  with assms b have ag: "featureRun_agent S w1 p f wd prev completed items = (Inr v, w2)"
    by (simp add: featureRun_try_def)
  from ag show ?thesis
  proof (cases rule: featureRun_agent_cases)
    case (thrown e wa)
    then show ?thesis by simp
  next
    case (gone wa)
    then show ?thesis by simp
  next
    case (completed wa running)
    from runAgent_completed_context[OF completed(1)] completed(4) show ?thesis
      by (simp add: updateFeatureStatus_frame emitAutoModeEvent_frame)
  qed
qed


lemma consumeStream_written:
  "consumeStream w k f st items = (r, st', w') \<Longrightarrow>
     contextFiles w' = contextFiles w \<or>
     (\<exists>n. contextFiles w' = (contextFiles w)(k \<mapsto> streamText (responseText st) (take n items)))"
proof (induction w k f st items arbitrary: r st' w' rule: consumeStream.induct)
  case (1 w key featureId st)
  then show ?case by simp
next
  case (2 w key featureId st e rest)
  then show ?case by simp
next
  case (3 w key featureId st rest)
  show ?case
  proof (cases "writeTimeout st")
    case True
    with 3(3) have "consumeStream (writeToFile w key (responseText st)) key featureId
             (st\<lparr>writeTimeout := False\<rparr>) rest = (r, st', w')" by simp
    note ih = 3(1)[OF True this]
    have cw: "contextFiles (writeToFile w key (responseText st)) =
                (contextFiles w)(key \<mapsto> responseText st)"
      by (simp add: writeToFile_def)
    have rt: "responseText (st\<lparr>writeTimeout := False\<rparr>) = responseText st"
      by simp
    from ih have d: "contextFiles w' = (contextFiles w)(key \<mapsto> responseText st) \<or>
          (\<exists>n. contextFiles w' =
                  (contextFiles w)(key \<mapsto> streamText (responseText st) (take n rest)))"
      by (simp only: cw rt fun_upd_upd)
    from d have "\<exists>n. contextFiles w' =
        (contextFiles w)(key \<mapsto> streamText (responseText st) (take n (TimerFires # rest)))"
    proof
      assume "contextFiles w' = (contextFiles w)(key \<mapsto> responseText st)"
      then have "contextFiles w' =
          (contextFiles w)(key \<mapsto> streamText (responseText st) (take 0 (TimerFires # rest)))"
        by simp
      then show ?thesis by (rule exI)
    next
      assume "\<exists>n. contextFiles w' =
                  (contextFiles w)(key \<mapsto> streamText (responseText st) (take n rest))"
      then obtain n where "contextFiles w' =
                  (contextFiles w)(key \<mapsto> streamText (responseText st) (take n rest))" ..
      then have "contextFiles w' =
          (contextFiles w)(key \<mapsto> streamText (responseText st) (take (Suc n) (TimerFires # rest)))"
        by simp
      then show ?thesis by (rule exI)
    qed
    then show ?thesis ..
  next
    case False
    with 3(3) have "consumeStream w key featureId st rest = (r, st', w')" by simp
    from 3(2)[OF False this] show ?thesis
    proof
      assume "contextFiles w' = contextFiles w"
      then show ?thesis ..
    next
      assume "\<exists>n. contextFiles w' =
                  (contextFiles w)(key \<mapsto> streamText (responseText st) (take n rest))"
      then obtain n where "contextFiles w' =
                  (contextFiles w)(key \<mapsto> streamText (responseText st) (take n rest))" ..
      then have "contextFiles w' =
          (contextFiles w)(key \<mapsto> streamText (responseText st) (take (Suc n) (TimerFires # rest)))"
        by simp
      then have "\<exists>n. contextFiles w' =
          (contextFiles w)(key \<mapsto> streamText (responseText st) (take n (TimerFires # rest)))"
        by (rule exI)
      then show ?thesis ..
    qed
  qed
next
  case (4 w key featureId st blocks rest)
  obtain rb stb wb where pb: "processBlocks w featureId st blocks = (rb, stb, wb)"
    by (cases "processBlocks w featureId st blocks")
  from processBlocks_text[OF pb] have cf: "contextFiles wb = contextFiles w" by blast
  from processBlocks_blocksText[OF pb]
  have bt: "responseText stb = blocksText (responseText st) blocks"
    and th: "rb \<noteq> None \<longleftrightarrow> blocksThrow blocks" by simp_all
  show ?case
  proof (cases rb)
    case None
    with th have nt: "\<not> blocksThrow blocks" by simp
    from None 4(2) pb have "consumeStream wb key featureId stb rest = (r, st', w')" by simp
    from 4(1)[OF pb[symmetric] None refl this] show ?thesis
    proof
      assume "contextFiles w' = contextFiles wb"
      with cf show ?thesis by simp
    next
      assume "\<exists>n. contextFiles w' =
                  (contextFiles wb)(key \<mapsto> streamText (responseText stb) (take n rest))"
      then obtain n where "contextFiles w' =
                  (contextFiles wb)(key \<mapsto> streamText (responseText stb) (take n rest))" ..
      then have "contextFiles w' =
          (contextFiles w)(key \<mapsto> streamText (responseText st)
             (take (Suc n) (Yield (AssistantMsg blocks) # rest)))"
        using nt by (simp add: cf bt)
      then have "\<exists>n. contextFiles w' =
          (contextFiles w)(key \<mapsto> streamText (responseText st)
             (take n (Yield (AssistantMsg blocks) # rest)))"
        by (rule exI)
      then show ?thesis ..
    qed
  next
    case (Some e)
    with 4(2) pb cf show ?thesis by auto
  qed
next
  case (5 w key featureId st m rest)
  then show ?case by simp
next
  case (6 w key featureId st subtype rest)
  let ?st1 = "if subtype = ''success'' then st\<lparr>writeTimeout := True\<rparr> else st"
  have rt: "responseText ?st1 = responseText st" by simp
  from 6(3) have c: "consumeStream w key featureId ?st1 rest = (r, st', w')"
    by (simp split: if_splits)
  have "contextFiles w' = contextFiles w \<or>
     (\<exists>n. contextFiles w' = (contextFiles w)(key \<mapsto> streamText (responseText st) (take n rest)))"
  proof (cases "subtype = ''success''")
    case True
    with c have "consumeStream w key featureId (st\<lparr>writeTimeout := True\<rparr>) rest = (r, st', w')"
      by simp
    note ih = 6(1)[OF True this]
    have rt1: "responseText (st\<lparr>writeTimeout := True\<rparr>) = responseText st" by simp
    from ih show ?thesis unfolding rt1 .
  next
    case False
    with c have "consumeStream w key featureId st rest = (r, st', w')" by simp
    from 6(2)[OF False this] show ?thesis .
  qed
  then show ?case
  proof
    assume "contextFiles w' = contextFiles w"
    then show ?thesis ..
  next
    assume "\<exists>n. contextFiles w' =
                (contextFiles w)(key \<mapsto> streamText (responseText st) (take n rest))"
    then obtain n where "contextFiles w' =
                (contextFiles w)(key \<mapsto> streamText (responseText st) (take n rest))" ..
    then have "contextFiles w' =
        (contextFiles w)(key \<mapsto> streamText (responseText st)
           (take (Suc n) (Yield (ResultMsg subtype) # rest)))"
      by simp
    then have "\<exists>n. contextFiles w' =
        (contextFiles w)(key \<mapsto> streamText (responseText st)
           (take n (Yield (ResultMsg subtype) # rest)))"
      by (rule exI)
    then show ?thesis ..
  qed
next
  case (7 w key featureId st rest)
  from 7(2) have "consumeStream w key featureId st rest = (r, st', w')" by simp
  from 7(1)[OF this] show ?case
  proof
    assume "contextFiles w' = contextFiles w"
    then show ?thesis ..
  next
    assume "\<exists>n. contextFiles w' =
                (contextFiles w)(key \<mapsto> streamText (responseText st) (take n rest))"
    then obtain n where "contextFiles w' =
                (contextFiles w)(key \<mapsto> streamText (responseText st) (take n rest))" ..
    then have "contextFiles w' =
        (contextFiles w)(key \<mapsto> streamText (responseText st) (take (Suc n) (Yield OtherMsg # rest)))"
      by simp
    then have "\<exists>n. contextFiles w' =
        (contextFiles w)(key \<mapsto> streamText (responseText st) (take n (Yield OtherMsg # rest)))"
      by (rule exI)
    then show ?thesis ..
  qed
qed

lemma runAgent_written:
  assumes "runAgent S w wd f p prev items = (r, w')"
  shows "contextFiles w' = contextFiles w \<or>
         (if mockAgent S then contextFiles w' = (contextFiles w)((p, f) \<mapsto> mockOutput)
          else \<exists>n. contextFiles w' =
                 (contextFiles w)((p, f) \<mapsto> streamText (initialResponseText prev) (take n items)))"
proof (cases "mockAgent S")
  case True
  with assms show ?thesis
    by (auto simp: runAgent_def runAgent_mock_def Let_def writeToFile_def emitAutoModeEvent_def
        split: prod.splits option.splits)
next
  case False
  let ?st0 = "\<lparr>responseText = initialResponseText prev, writeTimeout = False\<rparr>"
  obtain rc st wc where c: "consumeStream w (p, f) f ?st0 items = (rc, st, wc)"
    by (cases "consumeStream w (p, f) f ?st0 items")
  from consumeStream_streamText[OF c]
  have t: "responseText st = streamText (initialResponseText prev) items" by simp
  from consumeStream_written[OF c]
  have d: "contextFiles wc = contextFiles w \<or>
        (\<exists>n. contextFiles wc =
           (contextFiles w)((p, f) \<mapsto> streamText (initialResponseText prev) (take n items)))"
    by simp
  show ?thesis
  proof (cases rc)
    case None
    with assms False c have "w' = writeToFile wc (p, f) (responseText st)"
      by (simp add: runAgent_def)
    then have "contextFiles w' =
        (contextFiles wc)((p, f) \<mapsto> streamText (initialResponseText prev) (take (length items) items))"
      by (simp add: writeToFile_def t)
    with d have "contextFiles w' =
        (contextFiles w)((p, f) \<mapsto> streamText (initialResponseText prev) (take (length items) items))"
      by auto
    then have "\<exists>n. contextFiles w' =
        (contextFiles w)((p, f) \<mapsto> streamText (initialResponseText prev) (take n items))"
      by (rule exI)
    with False show ?thesis by simp
  next
    case (Some e)
    with assms False c have "contextFiles w' = contextFiles wc"
      by (auto simp: runAgent_def split: if_splits)
    with d False show ?thesis by simp
  qed
qed

lemma featureRun_agent_written:
  assumes "featureRun_agent S w1 p f wd prev completed items = (r, w2)"
  shows "contextFiles w2 = contextFiles w1 \<or>
         (if mockAgent S then contextFiles w2 = (contextFiles w1)((p, f) \<mapsto> mockOutput)
          else \<exists>n. contextFiles w2 =
                 (contextFiles w1)((p, f) \<mapsto> streamText (initialResponseText prev) (take n items)))"
  using assms
proof (cases rule: featureRun_agent_cases)
  case (thrown e wa)
  from runAgent_written[OF thrown(1)] show ?thesis by (simp only: thrown(3))
next
  case (gone wa)
  have "contextFiles w2 = contextFiles wa"
    by (simp add: gone(4) updateFeatureStatus_frame)
  with runAgent_written[OF gone(1)] show ?thesis by (simp only:)
next
  case (completed wa running)
  have "contextFiles w2 = contextFiles wa"
    by (simp add: completed(4) updateFeatureStatus_frame emitAutoModeEvent_frame)
  with runAgent_written[OF completed(1)] show ?thesis by (simp only:)
qed

lemma featureRun_written:
  "contextFiles (snd (featureRun S w p f u a title prev completed items)) = contextFiles w \<or>
   (if mockAgent S
    then contextFiles (snd (featureRun S w p f u a title prev completed items)) =
           (contextFiles w)((p, f) \<mapsto> mockOutput)
    else \<exists>n. contextFiles (snd (featureRun S w p f u a title prev completed items)) =
           (contextFiles w)((p, f) \<mapsto> streamText (initialResponseText prev) (take n items)))"
proof -
  obtain rb w1 where b: "featureRun_begin S w p f u a title = (rb, w1)"
    by (cases "featureRun_begin S w p f u a title")
  note c1 = featureRun_begin_context[OF b]
  show ?thesis
  proof (cases rb)
    case (Inl e)
    then show ?thesis
      by (simp add: featureRun_def featureRun_try_def b featureRun_end_context c1)
  next
    case (Inr wd)
    obtain r w2 where ag: "featureRun_agent S w1 p f wd prev completed items = (r, w2)"
      by (cases "featureRun_agent S w1 p f wd prev completed items")
    have "contextFiles (snd (featureRun S w p f u a title prev completed items)) =
            contextFiles w2"
      by (simp add: featureRun_def featureRun_try_def b Inr ag featureRun_end_context)
    with featureRun_agent_written[OF ag] show ?thesis by (simp only: c1)
  qed
qed

text \<open>
  C9 (as amended). Without a context file \<open>resumeFeature\<close> is the call
  \<open>executeFeature(projectPath, featureId, useWorktrees, false)\<close>, which for a feature
  that is not running is the fresh run. With a context file of content \<open>T\<close> the outcome
  depends on \<open>T\<close> and on mock mode. Outside mock mode and for non-empty \<open>T\<close>, the
  context file afterwards holds \<open>T\<close> still, or \<open>T\<close>, the separator and the output of
  the messages the run had received when it last wrote; when the run completes (the feature
  was not running and the \<^verbatim>\<open>try\<close> block of \<open>executeFeatureWithContext\<close> ends without
  an exception) it holds \<open>T\<close>, the separator and the output of the whole stream. For an
  empty \<open>T\<close> the file holds the output alone, with no separator. In mock mode the file
  holds \<open>T\<close> or the fixed mock text, and the mock text when the run completes.
\<close>

theorem resumeFeature_context:
  "(contextFiles w (p, f) = None \<longrightarrow>
      resumeFeature S w p f u items = executeFeature S w p f u False items \<and>
      (\<not> isRunningFeature w f \<longrightarrow>
         resumeFeature S w p f u items = executeFeature_fresh S w p f u False items)) \<and>
   (contextFiles w (p, f) = Some T \<longrightarrow>
      (let completes =
             (\<not> isRunningFeature w f \<and>
              fst (featureRun_try S w p f u False ''Resuming...'' (Some T)
                     ''Feature resumed and completed in '' items) = Inr ());
           file = contextFiles (snd (resumeFeature S w p f u items)) (p, f)
       in (\<not> mockAgent S \<and> T \<noteq> [] \<longrightarrow>
             (file = Some T \<or>
              (\<exists>n. file = Some (T @ followUpSeparator @ newOutput (take n items)))) \<and>
             (completes \<longrightarrow> file = Some (T @ followUpSeparator @ newOutput items))) \<and>
          (\<not> mockAgent S \<and> T = [] \<longrightarrow>
             (\<exists>n. file = Some (streamText [] (take n items))) \<and>
             (completes \<longrightarrow> file = Some (streamText [] items))) \<and>
          (mockAgent S \<longrightarrow>
             (file = Some T \<or> file = Some mockOutput) \<and>
             (completes \<longrightarrow> file = Some mockOutput))))"
proof (intro conjI impI)
  assume n: "contextFiles w (p, f) = None"
  then show "resumeFeature S w p f u items = executeFeature S w p f u False items"
    by (simp add: resumeFeature.simps)
  assume "\<not> isRunningFeature w f"
  with n show "resumeFeature S w p f u items = executeFeature_fresh S w p f u False items"
    by (simp add: resumeFeature.simps executeFeature.simps runningGuard_def contextExists_def)
next
  assume h: "contextFiles w (p, f) = Some T"
  let ?run = "featureRun_try S w p f u False ''Resuming...'' (Some T)
                ''Feature resumed and completed in '' items"
  let ?file = "contextFiles (snd (resumeFeature S w p f u items)) (p, f)"
  let ?completes = "\<not> isRunningFeature w f \<and> fst ?run = Inr ()"
  have fin: "?file = Some (if mockAgent S then mockOutput
                           else streamText (initialResponseText (Some T)) items)"
    if "?completes"
  proof -
    from that have r: "resumeFeature S w p f u items = (Inr (), featureRun_end S p f ?run)"
      using h
      by (simp add: resumeFeature.simps executeFeatureWithContext_def runningGuard_def
          featureRun_def)
    from that have "?run = (Inr (), snd ?run)" by (metis prod.collapse)
    from featureRun_try_completed_context[OF this] show ?thesis
      by (simp add: r featureRun_end_context)
  qed
  have any: "?file = Some T \<or>
     (if mockAgent S then ?file = Some mockOutput
      else \<exists>n. ?file = Some (streamText (initialResponseText (Some T)) (take n items)))"
  proof (cases "isRunningFeature w f")
    case True
    with h show ?thesis
      by (simp add: resumeFeature.simps executeFeatureWithContext_def runningGuard_def)
  next
    case False
    have r: "resumeFeature S w p f u items =
               featureRun S w p f u False ''Resuming...'' (Some T)
                 ''Feature resumed and completed in '' items"
      using h False
      by (simp add: resumeFeature.simps executeFeatureWithContext_def runningGuard_def)
    let ?ctx = "contextFiles (snd (featureRun S w p f u False ''Resuming...'' (Some T)
                 ''Feature resumed and completed in '' items))"
    note fw = featureRun_written[of S w p f u False "''Resuming...''" "Some T"
        "''Feature resumed and completed in ''" items]
    show ?thesis
    proof (cases "mockAgent S")
      case True
      with fw have "?ctx = contextFiles w \<or> ?ctx = (contextFiles w)((p, f) \<mapsto> mockOutput)"
        by simp
      then show ?thesis using h True by (auto simp: r)
    next
      case nm: False
      with fw have "?ctx = contextFiles w \<or>
          (\<exists>n. ?ctx = (contextFiles w)((p, f) \<mapsto>
                  streamText (initialResponseText (Some T)) (take n items)))"
        by simp
      then show ?thesis
      proof
        assume "?ctx = contextFiles w"
        then show ?thesis using h by (simp add: r)
      next
        assume "\<exists>n. ?ctx = (contextFiles w)((p, f) \<mapsto>
                  streamText (initialResponseText (Some T)) (take n items))"
        then obtain n where "?ctx = (contextFiles w)((p, f) \<mapsto>
                  streamText (initialResponseText (Some T)) (take n items))" ..
        then have "?file = Some (streamText (initialResponseText (Some T)) (take n items))"
          by (simp add: r)
        then have "\<exists>n. ?file = Some (streamText (initialResponseText (Some T)) (take n items))"
          by blast
        with nm show ?thesis by simp
      qed
    qed
  qed
  have empty: "\<exists>n. ?file = Some (streamText [] (take n items))"
    if "\<not> mockAgent S" "T = []"
  proof -
    from any that have "?file = Some (streamText [] (take 0 items)) \<or>
        (\<exists>n. ?file = Some (streamText [] (take n items)))"
      by (simp add: initialResponseText_def)
    then show ?thesis by blast
  qed
  show "let completes = ?completes; file = ?file
       in (\<not> mockAgent S \<and> T \<noteq> [] \<longrightarrow>
             (file = Some T \<or>
              (\<exists>n. file = Some (T @ followUpSeparator @ newOutput (take n items)))) \<and>
             (completes \<longrightarrow> file = Some (T @ followUpSeparator @ newOutput items))) \<and>
          (\<not> mockAgent S \<and> T = [] \<longrightarrow>
             (\<exists>n. file = Some (streamText [] (take n items))) \<and>
             (completes \<longrightarrow> file = Some (streamText [] items))) \<and>
          (mockAgent S \<longrightarrow>
             (file = Some T \<or> file = Some mockOutput) \<and>
             (completes \<longrightarrow> file = Some mockOutput))"
    unfolding Let_def
  proof (intro conjI impI)
    assume a: "\<not> mockAgent S \<and> T \<noteq> []"
    with any show "?file = Some T \<or>
        (\<exists>n. ?file = Some (T @ followUpSeparator @ newOutput (take n items)))"
      by (simp add: initialResponseText_def streamText_separator)
    assume "?completes"
    from fin[OF this] a
    show "?file = Some (T @ followUpSeparator @ newOutput items)"
      by (simp add: initialResponseText_def streamText_separator)
  next
    assume a: "\<not> mockAgent S \<and> T = []"
    then show "\<exists>n. ?file = Some (streamText [] (take n items))"
      using empty by blast
    assume "?completes"
    from fin[OF this] a show "?file = Some (streamText [] items)"
      by (auto simp: initialResponseText_def)
  next
    assume a: "mockAgent S"
    with any show "?file = Some T \<or> ?file = Some mockOutput" by simp
    assume "?completes"
    from fin[OF this] a show "?file = Some mockOutput" by simp
  qed
qed


lemmas run_defs =
  featureRun_def featureRun_try_def featureRun_begin_def featureRun_agent_def featureRun_end_def
  featureRun_catch_def runAgent_def deriveWorktree_def loadFeature_def emitAutoModeEvent_def
  updateFeatureStatus_def branchNameOf_def truthy_def workDirOf_def initialResponseText_def
  isAuthText_def startsWith_def writeToFile_def runningGuard_def isRunningFeature_def
  contextExists_def executeFeatureWithContext_def executeFeature_fresh_def
  appendText_def appendTool_def endsWith_def newline_def

lemmas demo_defs =
  demoDeps_def demoWorld_def demoStream_def demoFeature_def demoWorldWith_def
  demoWorldRunning_def demoRunning_def

theorem resumeFeature_context_witness:
  "contextFiles demoWorld (''/proj'', ''f1'') = None \<and>
   resumeFeature demoDeps demoWorld ''/proj'' ''f1'' False demoStream =
     executeFeature demoDeps demoWorld ''/proj'' ''f1'' False False demoStream \<and>
   contextFiles (demoWorldWith ''Earlier output'') (''/proj'', ''f1'') = Some ''Earlier output'' \<and>
   \<not> mockAgent demoDeps \<and>
   \<not> isRunningFeature (demoWorldWith ''Earlier output'') ''f1'' \<and>
   fst (featureRun_try demoDeps (demoWorldWith ''Earlier output'') ''/proj'' ''f1'' False False
          ''Resuming...'' (Some ''Earlier output'') ''Feature resumed and completed in ''
          demoStream) = Inr () \<and>
   newOutput demoStream =
     ''Working on it\<newline>\<newline>'' @ toolIcon @ '' Tool: Edit\<newline>\<newline>Done'' \<and>
   contextFiles (snd (resumeFeature demoDeps (demoWorldWith ''Earlier output'') ''/proj'' ''f1''
                        False demoStream)) (''/proj'', ''f1'') =
     Some (''Earlier output'' @ followUpSeparator @ newOutput demoStream)"
proof -
  have n: "contextFiles demoWorld (''/proj'', ''f1'') = None"
    by (simp add: demoWorld_def)
  have c: "contextFiles (demoWorldWith ''Earlier output'') (''/proj'', ''f1'') = Some ''Earlier output''"
    by (simp add: demoWorldWith_def)
  have m: "\<not> mockAgent demoDeps"
    by (simp add: demoDeps_def)
  have nr: "\<not> isRunningFeature (demoWorldWith ''Earlier output'') ''f1''"
    by (simp add: isRunningFeature_def demoWorldWith_def demoWorld_def)
  have ok: "fst (featureRun_try demoDeps (demoWorldWith ''Earlier output'') ''/proj'' ''f1'' False
          False ''Resuming...'' (Some ''Earlier output'') ''Feature resumed and completed in ''
          demoStream) = Inr ()"
    by (simp add: run_defs demo_defs followUpSeparator_def Let_def)
  have no: "newOutput demoStream =
     ''Working on it\<newline>\<newline>'' @ toolIcon @ '' Tool: Edit\<newline>\<newline>Done''"
    by (simp add: newOutput_def demoStream_def followUpSeparator_def appendText_def
        appendTool_def endsWith_def newline_def isAuthText_def startsWith_def)
  from resumeFeature_context[where w=demoWorld and p="''/proj''" and f="''f1''" and S=demoDeps
      and u=False and items=demoStream] n
  have a: "resumeFeature demoDeps demoWorld ''/proj'' ''f1'' False demoStream =
     executeFeature demoDeps demoWorld ''/proj'' ''f1'' False False demoStream" by simp
  from resumeFeature_context[where w="demoWorldWith ''Earlier output''" and p="''/proj''"
      and f="''f1''" and T="''Earlier output''" and S=demoDeps and u=False and items=demoStream]
    c m nr ok
  have b: "contextFiles (snd (resumeFeature demoDeps (demoWorldWith ''Earlier output'') ''/proj''
                        ''f1'' False demoStream)) (''/proj'', ''f1'') =
     Some (''Earlier output'' @ followUpSeparator @ newOutput demoStream)"
    by (simp add: Let_def)
  from n a c m nr ok no b show ?thesis by (simp only: simp_thms)
qed

lemma resumeFeature_demo_run:
  "contextFiles (snd (resumeFeature demoDeps (demoWorldWith ''Earlier output'') ''/proj'' ''f1''
                         False [Yield (AssistantMsg [TextBlock ''Done''])])) (''/proj'', ''f1'')
     = Some (''Earlier output'' @ followUpSeparator @ ''Done'')"
  by (simp add: resumeFeature.simps run_defs demo_defs followUpSeparator_def Let_def)

text \<open>
  The second half of the claim as written fails in two cases. A context file that exists
  and is empty (a run whose stream brought no text leaves one) starts the new run with an
  empty text, and its output is not preceded by the separator. In mock mode the run writes
  the fixed mock text over a transcript that exists.
\<close>

theorem resumeFeature_separator_counterexample:
  "contextFiles (demoWorldWith []) (''/proj'', ''f1'') = Some [] \<and>
   contextFiles (snd (resumeFeature demoDeps (demoWorldWith []) ''/proj'' ''f1'' False
                        [Yield (AssistantMsg [TextBlock ''Done''])])) (''/proj'', ''f1'')
     = Some ''Done'' \<and>
   contextFiles (demoWorldWith ''Earlier output'') (''/proj'', ''f1'') = Some ''Earlier output'' \<and>
   contextFiles (snd (resumeFeature (demoDeps\<lparr>mockAgent := True\<rparr>)
                        (demoWorldWith ''Earlier output'') ''/proj'' ''f1'' False
                        [Yield (AssistantMsg [TextBlock ''Done''])])) (''/proj'', ''f1'')
     = Some mockOutput \<and>
   take 14 mockOutput = ''# Mock Agent O''"
proof -
  have a: "contextFiles (snd (resumeFeature demoDeps (demoWorldWith []) ''/proj'' ''f1'' False
                        [Yield (AssistantMsg [TextBlock ''Done''])])) (''/proj'', ''f1'')
     = Some ''Done''"
    by (simp add: resumeFeature.simps run_defs demo_defs Let_def)
  have b: "contextFiles (snd (resumeFeature (demoDeps\<lparr>mockAgent := True\<rparr>)
                        (demoWorldWith ''Earlier output'') ''/proj'' ''f1'' False
                        [Yield (AssistantMsg [TextBlock ''Done''])])) (''/proj'', ''f1'')
     = Some mockOutput"
    by (simp add: resumeFeature.simps run_defs runAgent_mock_def demo_defs Let_def)
  have c: "take 14 mockOutput = ''# Mock Agent O''"
    by (simp add: mockOutput_def)
  from a b c show ?thesis by (simp add: demoWorldWith_def)
qed

subsection \<open>The final write of the transcript\<close>

lemma processBlocks_outcome:
  "responseText st = responseText st0 \<Longrightarrow>
     outcome (processBlocks w f st bs) = outcome (processBlocks w0 f st0 bs)"
proof (induction w f st bs arbitrary: w0 st0 rule: processBlocks.induct)
  case (1 w f st)
  then show ?case by (simp add: outcome_def)
next
  case (2 w f st t blocks)
  show ?case
  proof (cases "isAuthText t")
    case True
    then show ?thesis using 2(2) by (simp add: outcome_def)
  next
    case False
    have "outcome (processBlocks (emitAutoModeEvent w (Progress f t)) f
             \<lparr>responseText = appendText (responseText st) t, writeTimeout = True\<rparr> blocks) =
          outcome (processBlocks (emitAutoModeEvent w0 (Progress f t)) f
             \<lparr>responseText = appendText (responseText st0) t, writeTimeout = True\<rparr> blocks)"
      by (rule 2(1)[OF False]) (simp add: 2(2))
    with False show ?thesis by simp
  qed
next
  case (3 w f st name input blocks)
  have "outcome (processBlocks (emitAutoModeEvent w (ToolUsed f name input)) f
           \<lparr>responseText = appendTool (responseText st) name input, writeTimeout = True\<rparr> blocks) =
        outcome (processBlocks (emitAutoModeEvent w0 (ToolUsed f name input)) f
           \<lparr>responseText = appendTool (responseText st0) name input, writeTimeout = True\<rparr> blocks)"
    by (rule 3(1)) (simp add: 3(2))
  then show ?case by simp
next
  case (4 w f st blocks)
  from 4(1)[OF 4(2)] show ?case by simp
qed

lemma notTimer_simps:
  "\<not> notTimer TimerFires" "notTimer (Yield m)" "notTimer (Throw e)"
  by (simp_all add: notTimer_def)

lemma consumeStream_outcome:
  "responseText st = responseText st0 \<Longrightarrow>
     outcome (consumeStream w k f st items) =
     outcome (consumeStream w0 k f st0 (filter notTimer items))"
proof (induction w k f st items arbitrary: w0 st0 rule: consumeStream.induct)
  case (1 w key featureId st)
  then show ?case by (simp add: outcome_def)
next
  case (2 w key featureId st e rest)
  then show ?case by (simp add: outcome_def notTimer_simps)
next
  case (3 w key featureId st rest)
  show ?case
  proof (cases "writeTimeout st")
    case True
    have "outcome (consumeStream (writeToFile w key (responseText st)) key featureId
            (st\<lparr>writeTimeout := False\<rparr>) rest) =
          outcome (consumeStream w0 key featureId st0 (filter notTimer rest))"
      by (rule 3(1)[OF True]) (simp add: 3(3))
    with True show ?thesis by (simp add: notTimer_simps)
  next
    case False
    from 3(2)[OF False 3(3)] False show ?thesis by (simp add: notTimer_simps)
  qed
next
  case (4 w key featureId st blocks rest)
  obtain rb stb wb where pb: "processBlocks w featureId st blocks = (rb, stb, wb)"
    by (cases "processBlocks w featureId st blocks")
  obtain rb0 stb0 wb0 where pb0: "processBlocks w0 featureId st0 blocks = (rb0, stb0, wb0)"
    by (cases "processBlocks w0 featureId st0 blocks")
  from processBlocks_outcome[OF 4(2), of w featureId blocks w0]
  have eq: "rb = rb0" "responseText stb = responseText stb0"
    by (simp_all add: outcome_def pb pb0)
  show ?case
  proof (cases rb)
    case None
    from 4(1)[OF pb[symmetric] None refl eq(2), of wb0]
    show ?thesis using None eq(1) by (simp add: pb pb0 notTimer_simps)
  next
    case (Some e)
    then show ?thesis using eq by (simp add: pb pb0 notTimer_simps outcome_def)
  qed
next
  case (5 w key featureId st m rest)
  then show ?case by (simp add: outcome_def notTimer_simps)
next
  case (6 w key featureId st subtype rest)
  show ?case
  proof (cases "subtype = ''success''")
    case True
    have "outcome (consumeStream w key featureId (st\<lparr>writeTimeout := True\<rparr>) rest) =
          outcome (consumeStream w0 key featureId (st0\<lparr>writeTimeout := True\<rparr>)
                     (filter notTimer rest))"
      by (rule 6(1)[OF True]) (simp add: 6(3))
    with True show ?thesis by (simp add: notTimer_simps)
  next
    case False
    from 6(2)[OF False 6(3)] False show ?thesis by (simp add: notTimer_simps)
  qed
next
  case (7 w key featureId st rest)
  from 7(1)[OF 7(2)] show ?case by (simp add: notTimer_simps)
qed

lemma consumeStream_same_messages:
  assumes "filter notTimer items' = filter notTimer items"
  shows "outcome (consumeStream w k f st items') = outcome (consumeStream w k f st items)"
  using consumeStream_outcome[of st st w k f items' w]
        consumeStream_outcome[of st st w k f items w] assms
  by simp

text \<open>
  Outside mock mode, when the loop over the stream ends without an exception,
  \<open>runAgent\<close> clears the timer and writes the accumulated text once more, so the
  context file holds exactly that text, wherever the debounce timer fired in between. When
  the loop ends by an exception the statements after the loop are not reached: the context
  store is as the loop left it.
\<close>

lemma runAgent_final_write:
  assumes "\<not> mockAgent S"
  shows "case consumeStream w (p, f) f
                \<lparr>responseText = initialResponseText prev, writeTimeout = False\<rparr> items of
           (None, st, w1) \<Rightarrow>
             fst (runAgent S w wd f p prev items) = Inr () \<and>
             contextFiles (snd (runAgent S w wd f p prev items)) (p, f) = Some (responseText st) \<and>
             (\<forall>items'. filter notTimer items' = filter notTimer items \<longrightarrow>
                contextFiles (snd (runAgent S w wd f p prev items')) (p, f) =
                  Some (responseText st))
         | (Some e, st, w1) \<Rightarrow>
             fst (runAgent S w wd f p prev items) = Inl e \<and>
             contextFiles (snd (runAgent S w wd f p prev items)) = contextFiles w1"
proof -
  let ?st0 = "\<lparr>responseText = initialResponseText prev, writeTimeout = False\<rparr>"
  obtain rc st wc where c: "consumeStream w (p, f) f ?st0 items = (rc, st, wc)"
    by (cases "consumeStream w (p, f) f ?st0 items")
  show ?thesis
  proof (cases rc)
    case None
    have same: "contextFiles (snd (runAgent S w wd f p prev items')) (p, f) = Some (responseText st)"
      if h: "filter notTimer items' = filter notTimer items" for items'
    proof -
      obtain rc' st' wc' where c': "consumeStream w (p, f) f ?st0 items' = (rc', st', wc')"
        by (cases "consumeStream w (p, f) f ?st0 items'")
      from consumeStream_same_messages[OF h, of w "(p, f)" f ?st0]
      have "rc' = None" "responseText st' = responseText st"
        by (simp_all add: outcome_def c c' None)
      then show ?thesis
        using assms by (simp add: runAgent_def c' writeToFile_def)
    qed
    from same[of items] same show ?thesis
      using assms by (simp add: c None runAgent_def)
  next
    case (Some e)
    then show ?thesis
      using assms by (simp add: c runAgent_def)
  qed
qed

lemma runAgent_final_write_demo:
  "\<not> mockAgent demoDeps \<and>
   fst (runAgent demoDeps demoWorld ''/proj'' ''f1'' ''/proj'' None demoStream) = Inr () \<and>
   contextFiles (snd (runAgent demoDeps demoWorld ''/proj'' ''f1'' ''/proj'' None demoStream))
     (''/proj'', ''f1'') =
     Some (''Working on it\<newline>\<newline>'' @ toolIcon @ '' Tool: Edit\<newline>\<newline>Done'')"
proof -
  have m: "\<not> mockAgent demoDeps"
    by (simp add: demoDeps_def)
  let ?c = "consumeStream demoWorld (''/proj'', ''f1'') ''f1''
              \<lparr>responseText = initialResponseText None, writeTimeout = False\<rparr> demoStream"
  have r: "fst ?c = None"
    by (simp add: run_defs demo_defs)
  have t: "responseText (fst (snd ?c)) =
             ''Working on it\<newline>\<newline>'' @ toolIcon @ '' Tool: Edit\<newline>\<newline>Done''"
    by (simp add: run_defs demo_defs toolIcon_def)
  from runAgent_final_write[OF m, where w=demoWorld and p="''/proj''" and f="''f1''"
      and prev=None and items=demoStream and wd="''/proj''"]
  show ?thesis
    using m r t by (simp add: case_prod_beta)
qed

text \<open>
  C4. The final write stands after the loop and inside no \<open>finally\<close>, so it is
  done only when the stream ends without an exception. Two streams that end by an error: a
  first text block with an authentication signal is appended to the text and the exception
  is thrown before a write is scheduled, so the context file is never written, not even when
  the timers fire later; and an error message after a text block rejects the run while the
  context file is still absent and the debounce timer is left armed with the text.
\<close>

theorem runAgent_error_skips_final_write:
  "consumeStream demoWorld (''/proj'', ''f1'') ''f1''
     \<lparr>responseText = initialResponseText None, writeTimeout = False\<rparr>
     [Yield (AssistantMsg [TextBlock ''Invalid API key''])]
     = (Some (newError authFailedMessage),
        \<lparr>responseText = ''Invalid API key'', writeTimeout = False\<rparr>, demoWorld) \<and>
   fst (runAgent demoDeps demoWorld ''/proj'' ''f1'' ''/proj'' None
          [Yield (AssistantMsg [TextBlock ''Invalid API key''])])
     = Inl (newError authFailedMessage) \<and>
   contextFiles (snd (runAgent demoDeps demoWorld ''/proj'' ''f1'' ''/proj'' None
                        [Yield (AssistantMsg [TextBlock ''Invalid API key''])]))
     (''/proj'', ''f1'') = None \<and>
   timers (snd (runAgent demoDeps demoWorld ''/proj'' ''f1'' ''/proj'' None
                  [Yield (AssistantMsg [TextBlock ''Invalid API key''])])) = [] \<and>
   contextFiles (fireTimers (snd (runAgent demoDeps demoWorld ''/proj'' ''f1'' ''/proj'' None
                        [Yield (AssistantMsg [TextBlock ''Invalid API key''])])))
     (''/proj'', ''f1'') = None \<and>
   outcome (consumeStream demoWorld (''/proj'', ''f1'') ''f1''
     \<lparr>responseText = initialResponseText None, writeTimeout = False\<rparr>
     [Yield (AssistantMsg [TextBlock ''Hello'']), Yield (ErrorMsg ''boom'')])
     = (Some (newError ''boom''), ''Hello'') \<and>
   fst (runAgent demoDeps demoWorld ''/proj'' ''f1'' ''/proj'' None
          [Yield (AssistantMsg [TextBlock ''Hello'']), Yield (ErrorMsg ''boom'')])
     = Inl (newError ''boom'') \<and>
   contextFiles (snd (runAgent demoDeps demoWorld ''/proj'' ''f1'' ''/proj'' None
                        [Yield (AssistantMsg [TextBlock ''Hello'']), Yield (ErrorMsg ''boom'')]))
     (''/proj'', ''f1'') = None \<and>
   timers (snd (runAgent demoDeps demoWorld ''/proj'' ''f1'' ''/proj'' None
                  [Yield (AssistantMsg [TextBlock ''Hello'']), Yield (ErrorMsg ''boom'')]))
     = [((''/proj'', ''f1''), ''Hello'')]"
  by (simp add: run_defs demo_defs fireTimers_def outcome_def)

subsection \<open>Worktree reuse\<close>











lemma posixResolve_absolute:
  "absolutePath q \<Longrightarrow> posixResolve cwd [a, q] = posixResolve cwd [q]"
  by (cases q) (auto simp: posixResolve_def absolutePath_def startsWith_def)














lemma split_lines_nonempty: "split_lines s \<noteq> []"
  by (induction s) (auto split: list.splits)



lemma worktreeOfBranch_None:
  "worktreeOfBranch b es = None \<longleftrightarrow> Some b \<notin> snd ` set es"
  by (induction b es rule: worktreeOfBranch.induct) auto
































subsection \<open>Two calls for one feature\<close>

lemma executeFeature_parts:
  "executeFeature S w p f u a items =
     (case runningGuard w f of
        Inl e \<Rightarrow> (Inl e, w)
      | Inr v \<Rightarrow>
          if contextExists w p f then resumeFeature S w p f u items
          else (case featureRun_begin S w p f u a ''Loading...'' of
                  (begun, w1) \<Rightarrow>
                    (Inr (), snd (featureRun_rest S w1 p f begun None
                                    ''Feature completed in '' items))))"
  by (auto simp: executeFeature.simps executeFeature_fresh_def featureRun_def featureRun_try_def
      featureRun_rest_def Let_def split: sum.splits prod.splits)

text \<open>
  C1. The test of the registry and the insertion are not atomic: the \<open>await\<close> of
  \<open>contextExists\<close>, of \<open>loadFeature\<close> and of the worktree lookup lie between
  them. For a stored feature without context and an empty registry, two calls made together
  both pass the test and neither is rejected. The second insertion replaces the entry of the
  first, so the controller of the first run can no longer be reached; the \<open>finally\<close>
  clause of the first run deletes the entry of the second; and the second run, whose agent
  completed, fails on the missing entry and puts the status back to \<open>backlog\<close>.
\<close>

theorem executeFeature_twice_both_start:
  "\<not> contextExists demoWorld ''/proj'' ''f1'' \<and>
   (case twoCalls demoDeps demoWorld ''/proj'' ''f1'' demoStream demoStream of
      (guard1, guard2, registry, try1, try2, w') \<Rightarrow>
        guard1 = Inr () \<and> guard2 = Inr () \<and>
        map fst registry = [''f1''] \<and>
        map (\<lambda>e. rfAbortController (snd e)) registry = [1] \<and>
        try1 = Inr () \<and>
        try2 = Inl (JsError ''TypeError''
                      ''Cannot read properties of undefined (reading startTime)'') \<and>
        statusOf w' ''/proj'' ''f1'' = Some ''backlog'' \<and>
        runningFeatures w' = [])"
  by (simp add: twoCalls_def featureRun_rest_def run_defs demo_defs statusOf_def Let_def)

subsection \<open>Commit titles\<close>

lemma length_trim_le: "length (trim s) \<le> length s"
  unfolding trim_def trim_with_def
  by (simp add: order_trans[OF length_dropWhile_le] order_trans[OF length_dropWhile_le length_dropWhile_le])

lemma length_first_line_le: "length (first_line s) \<le> length s"
  unfolding first_line_def by (rule length_takeWhile_le)

lemma first_line_no_newline: "lineFeed \<notin> set s \<Longrightarrow> first_line s = s"
  unfolding first_line_def by (induction s) auto

text \<open>
  C8 (as amended). The title is taken from the first line after \<open>trim\<close>, which strips
  the white space and line terminators of JavaScript at both ends; lengths are counted in
  UTF-16 code units. For a description that is not blank: when it has fewer than 60 code
  units the title is its trimmed first line; when it has 80 code units, no line feed and no
  white space at either end, the title is its first 57 code units followed by three dots, 60
  in all.
\<close>

theorem extractTitle_trimmed_first_line:
  assumes "trim d \<noteq> []"
  shows "(length d < 60 \<longrightarrow> extractTitleFromDescription d = trim (first_line d)) \<and>
         (length d = 80 \<and> lineFeed \<notin> set d \<and> trim d = d \<longrightarrow>
            extractTitleFromDescription d = take 57 d @ js ''...'' \<and>
            length (extractTitleFromDescription d) = 60)"
proof (intro conjI impI)
  from assms have ne: "d \<noteq> []" by (auto simp: trim_def trim_with_def)
  {
    assume "length d < 60"
    moreover have "length (trim (first_line d)) \<le> length d"
      using length_trim_le[of "first_line d"] length_first_line_le[of d] by linarith
    ultimately show "extractTitleFromDescription d = trim (first_line d)"
      using assms ne by (simp add: extractTitleFromDescription_def Let_def)
  }
  {
    assume h: "length d = 80 \<and> lineFeed \<notin> set d \<and> trim d = d"
    then have fl: "trim (first_line d) = d" by (simp add: first_line_no_newline)
    with h assms ne show "extractTitleFromDescription d = take 57 d @ js ''...''"
      by (simp add: extractTitleFromDescription_def Let_def)
    with h show "length (extractTitleFromDescription d) = 60" by (simp add: js_def)
  }
qed

theorem extractTitle_trimmed_first_line_witness:
  "trim (js ''Add login page'') \<noteq> [] \<and> length (js ''Add login page'') < 60 \<and>
   extractTitleFromDescription (js ''Add login page'') = js ''Add login page'' \<and>
   trim (replicate 80 0x61) = replicate 80 0x61 \<and>
   extractTitleFromDescription (replicate 80 0x61) = replicate 57 0x61 @ js ''...'' \<and>
   length (extractTitleFromDescription (replicate 80 0x61)) = 60"
proof -
  have h: "trim (js ''Add login page'') \<noteq> []"
    by (simp add: trim_def trim_with_def js_whitespace_def js_def)
  have a: "extractTitleFromDescription (js ''Add login page'') =
             trim (first_line (js ''Add login page''))"
    using extractTitle_trimmed_first_line[OF h] by (simp add: js_def)
  have b: "trim (first_line (js ''Add login page'')) = js ''Add login page''"
    by (simp add: trim_def trim_with_def first_line_def js_whitespace_def lineFeed_def js_def)
  let ?d = "replicate 80 (0x61 :: 16 word)"
  have t: "trim ?d = ?d"
    by (simp add: trim_def trim_with_def dropWhile_replicate js_whitespace_def)
  then have h2: "trim ?d \<noteq> []" by simp
  have n: "lineFeed \<notin> set ?d" by (simp add: lineFeed_def)
  from extractTitle_trimmed_first_line[OF h2] t n
  have c: "extractTitleFromDescription ?d = take 57 ?d @ js ''...'' \<and>
           length (extractTitleFromDescription ?d) = 60"
    by (simp add: js_def)
  from h a b t c show ?thesis by (simp add: js_def)
qed

text \<open>
  The claim as written fails on leading white space: 30 spaces followed by 50 letters is a
  description of 80 code units without a line feed, and its title is the 50 letters. The
  same happens with 20 no-break spaces before 60 letters: the title is the 60 letters, with
  no ellipsis.
\<close>

theorem extractTitle_80_counterexample:
  "length (replicate 30 0x20 @ replicate 50 (0x61 :: 16 word)) = 80 \<and>
   lineFeed \<notin> set (replicate 30 0x20 @ replicate 50 0x61) \<and>
   extractTitleFromDescription (replicate 30 0x20 @ replicate 50 0x61) = replicate 50 0x61 \<and>
   length (extractTitleFromDescription (replicate 30 0x20 @ replicate 50 0x61)) \<noteq> 60 \<and>
   length (replicate 20 0xA0 @ replicate 60 (0x61 :: 16 word)) = 80 \<and>
   extractTitleFromDescription (replicate 20 0xA0 @ replicate 60 0x61) = replicate 60 0x61"
proof -
  have title: "extractTitleFromDescription (replicate m sp @ replicate n 0x61) = replicate n 0x61"
    if sp: "js_whitespace sp" "sp \<noteq> lineFeed" and n: "0 < n" "n \<le> 60" for m n sp
  proof -
    let ?d = "replicate m sp @ replicate n (0x61 :: 16 word)"
    have a: "\<not> js_whitespace 0x61" by (simp add: js_whitespace_def)
    have dw: "dropWhile js_whitespace ?d = replicate n 0x61"
      using sp a n by (cases n) (simp_all add: dropWhile_append3)
    have dr: "dropWhile js_whitespace (rev (replicate n 0x61)) = replicate n 0x61"
      using a by simp
    have t: "trim ?d = replicate n 0x61"
      unfolding trim_def trim_with_def dw dr by simp
    have nl: "lineFeed \<notin> set ?d" using sp by (auto simp: lineFeed_def)
    have fl: "first_line ?d = ?d" by (rule first_line_no_newline[OF nl])
    have ne: "replicate n (0x61 :: 16 word) \<noteq> []" using n by simp
    have ne': "?d \<noteq> []" using n by simp
    show ?thesis
      unfolding extractTitleFromDescription_def fl t using n ne ne'
      by (simp add: Let_def)
  qed
  have s1: "js_whitespace 0x20" "(0x20 :: 16 word) \<noteq> lineFeed"
    and s2: "js_whitespace 0xA0" "(0xA0 :: 16 word) \<noteq> lineFeed"
    by (simp_all add: js_whitespace_def lineFeed_def)
  have nl: "lineFeed \<notin> set (replicate 30 0x20 @ replicate 50 (0x61 :: 16 word))"
    by (auto simp: lineFeed_def)
  from title[OF s1, of 50 30] title[OF s2, of 60 20] nl show ?thesis by simp
qed

subsection \<open>Verification stops at the first failing check\<close>



text \<open>When every check passes, the four commands run in their order.\<close>

lemma verifyFeature_all_pass:
  assumes "\<And>cmd g. \<exists>out err g'. shExec S (Shell cmd) (verifyWorkDir S w p f) g = (ExecOk out err, g')"
  shows "fst (verifyFeature S w p f) = True \<and>
         trace (snd (verifyFeature S w p f)) =
           trace w @ map (\<lambda>c. Exec (Shell (fst c)) (verifyWorkDir S w p f)) verificationChecks @
             [Emit (FeatureComplete f True ''All verification checks passed'')]"
proof -
  let ?wd = "verifyWorkDir S w p f"
  have step: "\<exists>out err w'. execAsync S w0 (Shell cmd) ?wd = (ExecOk out err, w') \<and>
                trace w' = trace w0 @ [Exec (Shell cmd) ?wd]" for w0 :: "'a world" and cmd
  proof -
    from assms[of cmd "external w0"] obtain out err g' where
      "shExec S (Shell cmd) ?wd (external w0) = (ExecOk out err, g')" by blast
    then show ?thesis by (simp add: execAsync_def)
  qed
  have run: "\<exists>results w'. runChecks S ?wd cs w0 rs = (True, results, w') \<and>
               trace w' = trace w0 @ map (\<lambda>c. Exec (Shell (fst c)) ?wd) cs"
    for cs and w0 :: "'a world" and rs
  proof (induction cs arbitrary: w0 rs)
    case Nil
    then show ?case by simp
  next
    case (Cons c cs)
    obtain cmd name where c: "c = (cmd, name)" by (cases c)
    from step[of w0 cmd] obtain out err w1 where
      e: "execAsync S w0 (Shell cmd) ?wd = (ExecOk out err, w1)"
      and t: "trace w1 = trace w0 @ [Exec (Shell cmd) ?wd]" by blast
    from Cons[of w1] e t show ?case
      by (simp add: c)
  qed
  from run[of verificationChecks w "[]"] obtain results w' where
    r: "runChecks S ?wd verificationChecks w [] = (True, results, w')"
    and t: "trace w' = trace w @ map (\<lambda>c. Exec (Shell (fst c)) ?wd) verificationChecks"
    by blast
  show ?thesis
    by (simp add: verifyFeature_def r emitAutoModeEvent_def t verifyMessage_def)
qed

subsection \<open>Commit failures\<close>

text \<open>
  The claim that a failing git commit reaches the caller as an exception does not hold: in
  the concrete environment the commit command fails and \<open>commitFeature\<close> returns
  \<open>null\<close>.
\<close>

theorem commitFeature_failure_counterexample:
  "fst (commitFeature demoDeps demoWorld ''/proj'' ''f1'' None) = Inr None \<and>
   trace (snd (commitFeature demoDeps demoWorld ''/proj'' ''f1'' None)) =
     [Exec GitStatusPorcelain ''/proj'', Exec GitAddAll ''/proj'',
      Exec (GitCommit (js ''feat: Add login page\<newline>\<newline>Implemented by Automaker auto-mode''))
        ''/proj'']"
  by (simp add: commitFeature_def commitFeature_try_def commitWorkDir_def execAsync_def
      demoDeps_def demoWorld_def demoFeature_def loadFeature_def commitMessage_def
      extractTitleFromDescription_def trim_def trimText_def trim_with_def first_line_def
      js_whitespace_def lineFeed_def js_def
      Let_def)

text \<open>
  C5 (as amended). \<open>commitFeature\<close> never throws: its promise always resolves, and an
  exception thrown by any of its git commands, the commit included, becomes the return value
  \<open>null\<close>.
\<close>

theorem commitFeature_never_throws:
  "(\<exists>v. fst (commitFeature S w p f pr) = Inr v) \<and>
   (fst (commitFeature_try S w p f (commitWorkDir S w p f pr)) = Inl e \<longrightarrow>
      fst (commitFeature S w p f pr) = Inr None)"
  by (cases "commitFeature_try S w p f (commitWorkDir S w p f pr)")
     (auto simp: commitFeature_def split: sum.splits)

theorem commitFeature_never_throws_witness:
  "fst (commitFeature_try demoDeps demoWorld ''/proj'' ''f1''
          (commitWorkDir demoDeps demoWorld ''/proj'' ''f1'' None))
     = Inl (newError ''Command failed: git commit'') \<and>
   fst (commitFeature demoDeps demoWorld ''/proj'' ''f1'' None) = Inr None"
proof -
  have t: "fst (commitFeature_try demoDeps demoWorld ''/proj'' ''f1''
                  (commitWorkDir demoDeps demoWorld ''/proj'' ''f1'' None))
             = Inl (newError ''Command failed: git commit'')"
    by (simp add: commitFeature_try_def commitWorkDir_def execAsync_def
        demoDeps_def demoWorld_def demoFeature_def loadFeature_def commitMessage_def
        trimText_def trim_with_def js_whitespace_def Let_def)
  from commitFeature_never_throws[of demoDeps demoWorld "''/proj''" "''f1''" None
         "newError ''Command failed: git commit''"] t
  show ?thesis by simp
qed

end
